theory Spec2Isabelle
  imports Complex_Main "HOL-Library.AList"
begin

section \<open>The realtime room server: data model\<close>

text \<open>
  The program is a single-threaded JavaScript server: socket handlers (\<open>joinRoom\<close>,
  \<open>input\<close>, \<open>action\<close>, \<open>disconnect\<close>) and one fixed-rate tick mutate a global registry
  \<open>rooms\<close>. Every handler and the tick run to completion, so the model is a sequence of
  steps on an explicit server state; each step returns the new state and the messages it
  emitted, in order.

  JavaScript \<open>Map\<close>s iterate in insertion order, \<open>set\<close> on an existing key keeps the key's
  position and \<open>delete\<close> removes it: they are association lists with \<open>AList.update\<close>,
  \<open>AList.delete\<close> and \<open>map_of\<close>. Numbers are real numbers (positions, angles) or integers
  (millisecond timestamps from \<open>Date.now()\<close>, hit points); the rounding of IEEE doubles is
  not modelled, their overflow is modelled where the code squares a number that a client
  chooses freely (\<open>len\<close>, below). \<open>Math.random()\<close> is a stream \<open>rnd\<close> of draws with the
  index of the next draw threaded through the code that consumes it. Identifiers (room,
  socket, player, enemy, spell) are strings; an absent or \<open>null\<close> one is \<open>None\<close>.
\<close>

subsection \<open>JavaScript values of the numeric input fields\<close>

datatype jsval = JUndefined | JNull | JBool bool | JNum real | JStr string | JObject

text \<open>\<open>typeof v === "number"\<close>\<close>

fun is_number :: "jsval \<Rightarrow> bool" where
  "is_number (JNum r) = True"
| "is_number v = False"

fun num_of :: "jsval \<Rightarrow> real" where
  "num_of (JNum r) = r"
| "num_of v = 0"

text \<open>Truthiness of an optional string: \<open>undefined\<close>, \<open>null\<close> and \<open>""\<close> are falsy.\<close>

fun truthy :: "string option \<Rightarrow> bool" where
  "truthy None = False"
| "truthy (Some s) = (s \<noteq> [])"

text \<open>\<open>a || b\<close> where \<open>b\<close> is a string.\<close>

fun or_else :: "string option \<Rightarrow> string \<Rightarrow> string" where
  "or_else None d = d"
| "or_else (Some s) d = (if s = [] then d else s)"

text \<open>\<open>a || null\<close>\<close>

fun or_null :: "string option \<Rightarrow> string option" where
  "or_null None = None"
| "or_null (Some s) = (if s = [] then None else Some s)"

subsection \<open>Template literals: decimal digits of a number\<close>

function show_nat :: "nat \<Rightarrow> string" where
  "show_nat n =
     (if n < 10 then [''0123456789'' ! n]
      else show_nat (n div 10) @ [''0123456789'' ! (n mod 10)])"
  by pat_completeness auto
termination
  by (relation "measure id") auto

declare show_nat.simps [simp del]

definition show_int :: "int \<Rightarrow> string" where
  "show_int i = (if i < 0 then ''-'' @ show_nat (nat (- i)) else show_nat (nat i))"

subsection \<open>CONFIG\<close>

definition dtClampSeconds :: real where "dtClampSeconds = 1 / 4"
definition playerSpeed :: real where "playerSpeed = 4"
definition enemySpeed :: real where "enemySpeed = 22 / 10"
definition enemyChaseRange :: real where "enemyChaseRange = 12"
definition enemyCount :: nat where "enemyCount = 6"
definition projectileSpeed :: real where "projectileSpeed = 10"
definition maxProjectilesPerRoom :: nat where "maxProjectilesPerRoom = 200"
definition castTimeMs :: int where "castTimeMs = 650"
definition fireball_damage :: int where "fireball_damage = 12"
definition lifetimeMs :: int where "lifetimeMs = 2500"


subsection \<open>Vector utilities\<close>

definition clamp :: "real \<Rightarrow> real \<Rightarrow> real \<Rightarrow> real" where
  "clamp v mn mx = max mn (min mx v)"

text \<open>
  \<open>len(x, z) = Math.sqrt(x * x + z * z)\<close>. A double holds magnitudes below
  \<open>2\<^sup>1\<^sup>0\<^sup>2\<^sup>4 - 2\<^sup>9\<^sup>7\<^sup>0\<close>; a sum of squares that reaches this bound is \<open>Infinity\<close>, and so is
  its square root. This happens for a component above about \<open>1.3e154\<close>, which a client
  can send as a velocity intent. Positions never come near it: every tick moves an object
  by a bounded step.
\<close>

datatype number = Finite real | Infinity

definition overflow_bound :: real where
  "overflow_bound = 2 ^ 1024 - 2 ^ 970"

definition len :: "real \<Rightarrow> real \<Rightarrow> number" where
  "len a b = (if overflow_bound \<le> a * a + b * b then Infinity else Finite (sqrt (a * a + b * b)))"

text \<open>
  \<open>Infinity < 1e-6\<close> is false and a finite number divided by \<open>Infinity\<close> is zero.
\<close>

definition norm2 :: "real \<Rightarrow> real \<Rightarrow> real \<times> real" where
  "norm2 a b =
     (case len a b of
        Infinity \<Rightarrow> (0, 0)
      | Finite m \<Rightarrow> if m < 1 / 1000000 then (0, 0) else (a / m, b / m))"

text \<open>\<open>Math.atan2(y, x)\<close> on reals (signed zeros are not distinguished).\<close>

definition atan2 :: "real \<Rightarrow> real \<Rightarrow> real" where
  "atan2 b a =
     (if 0 < a then arctan (b / a)
      else if a < 0 \<and> 0 \<le> b then arctan (b / a) + pi
      else if a < 0 then arctan (b / a) - pi
      else if 0 < b then pi / 2
      else if b < 0 then - (pi / 2)
      else 0)"

subsection \<open>Entities\<close>

record cast =
  c_spellId :: string
  c_targetEnemyId :: "string option"
  c_startAt :: int
  c_finishAt :: int

record player =
  p_socketId :: string
  p_playerId :: string
  p_name :: string
  p_x :: real
  p_z :: real
  p_vx :: real
  p_vz :: real
  p_rotY :: real
  p_hp :: int
  p_maxHp :: int
  p_mana :: int
  p_maxMana :: int
  p_casts :: "cast list"

datatype enemy_state = Idle | Wander | Chase

record enemy =
  e_enemyId :: string
  e_x :: real
  e_z :: real
  e_vx :: real
  e_vz :: real
  e_rotY :: real
  e_state :: enemy_state
  e_nextWanderAt :: real
  e_hp :: int
  e_maxHp :: int

record projectile =
  pr_projId :: string
  pr_type :: string
  pr_x :: real
  pr_z :: real
  pr_vx :: real
  pr_vz :: real
  pr_rotY :: real
  pr_ownerId :: string
  pr_targetEnemyId :: string
  pr_createdAt :: int
  pr_expiresAt :: int
  pr_damage :: int

record environment =
  timeOfDay :: real
  weather :: string

record room =
  players :: "(string \<times> player) list"
  enemies :: "(string \<times> enemy) list"
  projectiles :: "(string \<times> projectile) list"
  env :: environment

record server =
  rooms :: "(string \<times> room) list"
  lastTick :: int

subsection \<open>Outbound messages\<close>

text \<open>
  The payloads of the \<open>event\<close> channel, one constructor per event type, fields in the
  order of the source's object literals. The envelope's wall-clock stamp \<open>t\<close> is left out.
\<close>

datatype event =
    Player_joined string string
  | Player_left string string
  | Cast_start string string "string option" int
  | Cast_finish string string "string option"
  | Spell_effect string string string
  | Projectile_spawn string string string string
  | Projectile_despawn string
  | Hit string string string string
  | Damage string string string int int int
  | Enemy_death string

type_synonym player_view = "string \<times> string \<times> real \<times> real \<times> real \<times> int \<times> int \<times> int \<times> int"
type_synonym enemy_view = "string \<times> real \<times> real \<times> real \<times> enemy_state \<times> int \<times> int"
type_synonym projectile_view = "string \<times> string \<times> real \<times> real \<times> real \<times> string"

datatype out =
    Event string event
  | Joined string string
  | Snapshot string int "player_view list" "enemy_view list" "projectile_view list" environment

definition emitEvent :: "string \<Rightarrow> event \<Rightarrow> out list" where
  "emitEvent roomId ev = [Event roomId ev]"


section \<open>Room registry\<close>

definition new_enemy :: "nat \<Rightarrow> real \<Rightarrow> real \<Rightarrow> enemy" where
  "new_enemy i r1 r2 =
     \<lparr>e_enemyId = ''e'' @ show_nat (i + 1),
      e_x = r1 * 20 - 10, e_z = r2 * 20 - 10,
      e_vx = 0, e_vz = 0, e_rotY = 0,
      e_state = Wander, e_nextWanderAt = 0,
      e_hp = 50, e_maxHp = 50\<rparr>"

text \<open>
  The seeding loop \<open>for (let i = 0; i < CONFIG.enemyCount; i++)\<close>: \<open>i\<close> is the loop
  counter, the third argument the number of iterations left. Enemy \<open>i\<close> takes the draws
  \<open>2 i\<close> and \<open>2 i + 1\<close>.
\<close>

fun seed_enemies ::
  "(nat \<Rightarrow> real) \<Rightarrow> nat \<Rightarrow> nat \<Rightarrow> (string \<times> enemy) list \<Rightarrow> (string \<times> enemy) list" where
  "seed_enemies rnd i 0 es = es"
| "seed_enemies rnd i (Suc n) es =
     seed_enemies rnd (Suc i) n
       (AList.update (''e'' @ show_nat (i + 1)) (new_enemy i (rnd (2 * i)) (rnd (2 * i + 1))) es)"

definition new_room :: "(nat \<Rightarrow> real) \<Rightarrow> room" where
  "new_room rnd =
     \<lparr>players = [], enemies = seed_enemies rnd 0 enemyCount [], projectiles = [],
      env = \<lparr>timeOfDay = 12, weather = ''clear''\<rparr>\<rparr>"

text \<open>\<open>getRoom\<close> returns the registry (extended when the room is new) and the room.\<close>

definition getRoom ::
  "(nat \<Rightarrow> real) \<Rightarrow> string \<Rightarrow> (string \<times> room) list \<Rightarrow> (string \<times> room) list \<times> room" where
  "getRoom rnd roomId rs =
     (case map_of rs roomId of
        Some r \<Rightarrow> (rs, r)
      | None \<Rightarrow> (let r = new_room rnd in (AList.update roomId r rs, r)))"

text \<open>
  The lookups return the key under which the object sits together with the object, so
  that a later field assignment can be written as an update at that key.
\<close>

definition findPlayerByPlayerId :: "room \<Rightarrow> string option \<Rightarrow> (string \<times> player) option" where
  "findPlayerByPlayerId room playerId =
     find (\<lambda>(k, p). Some (p_playerId p) = playerId) (players room)"

definition findEnemy :: "room \<Rightarrow> string option \<Rightarrow> (string \<times> enemy) option" where
  "findEnemy room enemyId =
     (case enemyId of None \<Rightarrow> None | Some k \<Rightarrow> map_option (Pair k) (map_of (enemies room) k))"

text \<open>
  \<open>bestD2\<close> starts at \<open>Infinity\<close>: the accumulator is \<open>None\<close> until the first player.
\<close>

fun pickNearestPlayer_loop ::
  "real \<Rightarrow> real \<Rightarrow> player list \<Rightarrow> (player \<times> real) option \<Rightarrow> (player \<times> real) option" where
  "pickNearestPlayer_loop x z [] best = best"
| "pickNearestPlayer_loop x z (p # ps) best =
     (let dx = p_x p - x; dz = p_z p - z; d2 = dx * dx + dz * dz
      in pickNearestPlayer_loop x z ps
           (case best of
              None \<Rightarrow> Some (p, d2)
            | Some (b, bestD2) \<Rightarrow> if d2 < bestD2 then Some (p, d2) else Some (b, bestD2)))"

definition pickNearestPlayer :: "room \<Rightarrow> real \<Rightarrow> real \<Rightarrow> player option" where
  "pickNearestPlayer room x z =
     map_option fst (pickNearestPlayer_loop x z (map snd (players room)) None)"

definition spawnProjectile :: "room \<Rightarrow> projectile \<Rightarrow> room" where
  "spawnProjectile room proj =
     (let ps =
        (if length (projectiles room) > maxProjectilesPerRoom then
           (case projectiles room of
              [] \<Rightarrow> []
            | (firstKey, old) # rest \<Rightarrow>
                if firstKey \<noteq> [] then AList.delete firstKey (projectiles room)
                else projectiles room)
         else projectiles room)
      in room\<lparr>projectiles := AList.update (pr_projId proj) proj ps\<rparr>)"

section \<open>Inbound messages\<close>

text \<open>
  Every handler destructures its argument in the parameter list, as in
  \<open>({ roomId, vx, vz, rotY }) => \<dots>\<close>. When the client emits the event without a payload,
  or with \<open>null\<close>, the argument is \<open>undefined\<close> or \<open>null\<close> and the destructuring throws a
  \<open>TypeError\<close> before the body runs. The argument of a handler is therefore an option,
  \<open>None\<close> for these two values, and the handler returns either the error or what its
  body returns. Any other argument destructures, and a field it does not have reads as
  absent; an absent \<open>roomId\<close> or \<open>type\<close> is the empty string (\<open>joinRoom\<close> registers no
  room under a falsy id).
\<close>

datatype error = TypeError

record join_msg =
  j_roomId :: string
  j_playerId :: "string option"
  j_name :: "string option"

record input_msg =
  i_roomId :: string
  i_vx :: jsval
  i_vz :: jsval
  i_rotY :: jsval

text \<open>
  \<open>payload?.spellId\<close> and \<open>payload?.targetEnemyId\<close>: a missing payload reads as two
  absent fields.
\<close>

record payload =
  pl_spellId :: "string option"
  pl_targetEnemyId :: "string option"

record action_msg =
  a_roomId :: string
  a_actorId :: "string option"
  a_type :: string
  a_payload :: payload

definition new_player :: "string \<Rightarrow> join_msg \<Rightarrow> player" where
  "new_player sid m =
     \<lparr>p_socketId = sid,
      p_playerId = or_else (j_playerId m) sid,
      p_name = or_else (j_name m) ''Player'',
      p_x = 0, p_z = 0, p_vx = 0, p_vz = 0, p_rotY = 0,
      p_hp = 100, p_maxHp = 100, p_mana = 50, p_maxMana = 50,
      p_casts = []\<rparr>"

text \<open>The body of the \<open>joinRoom\<close> handler, and the handler.\<close>

definition joinRoom_body :: "string \<Rightarrow> (nat \<Rightarrow> real) \<Rightarrow> join_msg \<Rightarrow> server \<Rightarrow> server \<times> out list" where
  "joinRoom_body sid rnd m s =
     (if j_roomId m = [] then (s, [])
      else
        (let roomId = j_roomId m;
             (rs, room) = getRoom rnd roomId (rooms s);
             room' = room\<lparr>players := AList.update sid (new_player sid m) (players room)\<rparr>
         in (s\<lparr>rooms := AList.update roomId room' rs\<rparr>,
             Joined sid roomId #
             emitEvent roomId (Player_joined (or_else (j_playerId m) sid) (or_else (j_name m) ''Player'')))))"


text \<open>The body of the \<open>input\<close> handler, and the handler.\<close>

definition input_body :: "string \<Rightarrow> input_msg \<Rightarrow> server \<Rightarrow> server \<times> out list" where
  "input_body sid m s =
     (case map_of (rooms s) (i_roomId m) of
        None \<Rightarrow> (s, [])
      | Some room \<Rightarrow>
          (case map_of (players room) sid of
             None \<Rightarrow> (s, [])
           | Some p \<Rightarrow>
               (let p1 = (if is_number (i_vx m) then p\<lparr>p_vx := num_of (i_vx m)\<rparr> else p);
                    p2 = (if is_number (i_vz m) then p1\<lparr>p_vz := num_of (i_vz m)\<rparr> else p1);
                    p3 = (if is_number (i_rotY m) then p2\<lparr>p_rotY := num_of (i_rotY m)\<rparr> else p2);
                    room' = room\<lparr>players := AList.update sid p3 (players room)\<rparr>
                in (s\<lparr>rooms := AList.update (i_roomId m) room' (rooms s)\<rparr>, []))))"

definition on_input :: "string \<Rightarrow> input_msg option \<Rightarrow> server \<Rightarrow> error + server \<times> out list" where
  "on_input sid arg s =
     (case arg of None \<Rightarrow> Inl TypeError | Some m \<Rightarrow> Inr (input_body sid m s))"

text \<open>\<open>findPlayerByPlayerId(room, actorId) || room.players.get(socket.id)\<close>\<close>

definition resolve_actor :: "room \<Rightarrow> string option \<Rightarrow> string \<Rightarrow> (string \<times> player) option" where
  "resolve_actor room actorId sid =
     (case findPlayerByPlayerId room actorId of
        Some kp \<Rightarrow> Some kp
      | None \<Rightarrow> map_option (Pair sid) (map_of (players room) sid))"

text \<open>
  The body of the \<open>action\<close> handler, and the handler. The cast branch reads the clock
  twice (\<open>startAt\<close>, then \<open>finishAt\<close>): \<open>t1\<close> and \<open>t2\<close>.
\<close>

definition action_body :: "string \<Rightarrow> int \<Rightarrow> int \<Rightarrow> action_msg \<Rightarrow> server \<Rightarrow> server \<times> out list" where
  "action_body sid t1 t2 m s =
     (case map_of (rooms s) (a_roomId m) of
        None \<Rightarrow> (s, [])
      | Some room \<Rightarrow>
          (case resolve_actor room (a_actorId m) sid of
             None \<Rightarrow> (s, [])
           | Some (k, actor) \<Rightarrow>
               if a_type m = ''cast'' then
                 (let spellId = or_else (pl_spellId (a_payload m)) ''fireball'';
                      targetEnemyId = or_null (pl_targetEnemyId (a_payload m));
                      c = \<lparr>c_spellId = spellId, c_targetEnemyId = targetEnemyId,
                           c_startAt = t1, c_finishAt = t2 + castTimeMs\<rparr>;
                      actor' = actor\<lparr>p_casts := p_casts actor @ [c]\<rparr>;
                      room' = room\<lparr>players := AList.update k actor' (players room)\<rparr>
                  in (s\<lparr>rooms := AList.update (a_roomId m) room' (rooms s)\<rparr>,
                      emitEvent (a_roomId m)
                        (Cast_start (p_playerId actor) spellId targetEnemyId castTimeMs)))
               else if a_type m = ''attack'' then
                 (let targetEnemyId = pl_targetEnemyId (a_payload m)
                  in case (if truthy targetEnemyId then findEnemy room targetEnemyId else None) of
                       None \<Rightarrow> (s, [])
                     | Some (ek, e) \<Rightarrow>
                         (let dmg = 6;
                              e' = e\<lparr>e_hp := max 0 (e_hp e - dmg)\<rparr>;
                              room' = room\<lparr>enemies := AList.update ek e' (enemies room)\<rparr>
                          in (s\<lparr>rooms := AList.update (a_roomId m) room' (rooms s)\<rparr>,
                              emitEvent (a_roomId m)
                                (Damage (p_playerId actor) ''enemy'' (e_enemyId e') dmg (e_hp e') (e_maxHp e'))
                              @ (if e_hp e' \<le> 0 then emitEvent (a_roomId m) (Enemy_death (e_enemyId e'))
                                 else []))))
               else (s, [])))"

definition on_action ::
  "string \<Rightarrow> int \<Rightarrow> int \<Rightarrow> action_msg option \<Rightarrow> server \<Rightarrow> error + server \<times> out list" where
  "on_action sid t1 t2 arg s =
     (case arg of None \<Rightarrow> Inl TypeError | Some m \<Rightarrow> Inr (action_body sid t1 t2 m s))"

text \<open>
  The \<open>disconnect\<close> handler takes no payload. Its loop walks the registry's entries and
  stops (\<open>break\<close>) at the first room that holds the socket.
\<close>

fun disconnect_loop ::
  "string \<Rightarrow> (string \<times> room) list \<Rightarrow> (string \<times> room) list \<Rightarrow> (string \<times> room) list \<times> out list" where
  "disconnect_loop sid [] rs = (rs, [])"
| "disconnect_loop sid ((roomId, room) # rest) rs =
     (case map_of (players room) sid of
        Some p \<Rightarrow>
          (let room' = room\<lparr>players := AList.delete sid (players room)\<rparr>;
               rs1 = AList.update roomId room' rs;
               rs2 = (if length (players room') = 0 then AList.delete roomId rs1 else rs1)
           in (rs2, emitEvent roomId (Player_left (p_playerId p) (p_name p))))
      | None \<Rightarrow> disconnect_loop sid rest rs)"

definition on_disconnect :: "string \<Rightarrow> server \<Rightarrow> server \<times> out list" where
  "on_disconnect sid s =
     (let (rs, evs) = disconnect_loop sid (rooms s) (rooms s) in (s\<lparr>rooms := rs\<rparr>, evs))"


section \<open>The tick\<close>

subsection \<open>1) Players\<close>

text \<open>
  \<open>if (m > 1) { vx /= m; vz /= m; }\<close>: when \<open>m\<close> is \<open>Infinity\<close> the test holds and both
  quotients are zero.
\<close>

definition move_player :: "real \<Rightarrow> player \<Rightarrow> player" where
  "move_player dt p =
     (let (vx, vz) =
        (case len (p_vx p) (p_vz p) of
           Infinity \<Rightarrow> (0, 0)
         | Finite m \<Rightarrow> if m > 1 then (p_vx p / m, p_vz p / m) else (p_vx p, p_vz p))
      in p\<lparr>p_x := p_x p + vx * playerSpeed * dt, p_z := p_z p + vz * playerSpeed * dt\<rparr>)"

subsection \<open>2) Enemies\<close>

text \<open>
  One iteration of the enemy loop. \<open>i\<close> is the index of the next random draw; a wander
  re-roll takes two draws (angle, deadline).
\<close>

definition tick_enemy ::
  "int \<Rightarrow> real \<Rightarrow> (nat \<Rightarrow> real) \<Rightarrow> room \<Rightarrow> enemy \<Rightarrow> nat \<Rightarrow> enemy \<times> nat" where
  "tick_enemy now dt rnd room e i =
     (let (e1, i1) =
        (case pickNearestPlayer room (e_x e) (e_z e) of
           None \<Rightarrow> (e\<lparr>e_vx := 0, e_vz := 0, e_state := Idle\<rparr>, i)
         | Some target \<Rightarrow>
             (let dx = p_x target - e_x e;
                  dz = p_z target - e_z e;
                  dist = sqrt (dx * dx + dz * dz);
                  (e2, i2) =
                    (if dist < enemyChaseRange then
                       (let (nx, nz) = norm2 dx dz
                        in (e\<lparr>e_state := Chase, e_vx := nx, e_vz := nz\<rparr>, i))
                     else
                       (let e3 = e\<lparr>e_state := Wander\<rparr>
                        in if e_nextWanderAt e3 = 0 \<or> e_nextWanderAt e3 \<le> real_of_int now then
                             (let ang = rnd i * pi * 2
                              in (e3\<lparr>e_vx := cos ang, e_vz := sin ang,
                                     e_nextWanderAt := real_of_int now + (800 + rnd (i + 1) * 1200)\<rparr>,
                                  i + 2))
                           else (e3, i)))
              in (e2\<lparr>e_rotY := atan2 (e_vx e2) (e_vz e2)\<rparr>, i2)))
      in (e1\<lparr>e_x := e_x e1 + e_vx e1 * enemySpeed * dt,
              e_z := e_z e1 + e_vz e1 * enemySpeed * dt\<rparr>, i1))"

fun tick_enemies ::
  "int \<Rightarrow> real \<Rightarrow> (nat \<Rightarrow> real) \<Rightarrow> room \<Rightarrow> (string \<times> enemy) list \<Rightarrow> nat
     \<Rightarrow> (string \<times> enemy) list \<times> nat" where
  "tick_enemies now dt rnd room [] i = ([], i)"
| "tick_enemies now dt rnd room ((k, e) # es) i =
     (let (e', i1) = tick_enemy now dt rnd room e i;
          (es', i2) = tick_enemies now dt rnd room es i1
      in ((k, e') # es', i2))"

subsection \<open>3) Cast resolution\<close>

text \<open>The body of the cast loop for a cast that completes now.\<close>

definition cast_due ::
  "int \<Rightarrow> string \<Rightarrow> (nat \<Rightarrow> real) \<Rightarrow> player \<Rightarrow> cast \<Rightarrow> room \<Rightarrow> nat \<Rightarrow> room \<times> out list \<times> nat" where
  "cast_due now roomId rnd p c room i =
     (let finish = emitEvent roomId (Cast_finish (p_playerId p) (c_spellId c) (c_targetEnemyId c))
      in if c_spellId c = ''fireball'' then
           (case (if truthy (c_targetEnemyId c) then findEnemy room (c_targetEnemyId c) else None) of
              Some (ek, target) \<Rightarrow>
                (let dx = e_x target - p_x p;
                     dz = e_z target - p_z p;
                     (nx, nz) = norm2 dx dz;
                     projId = ''p_'' @ p_playerId p @ ''_'' @ show_int now @ ''_''
                                @ show_int \<lfloor>rnd i * 9999\<rfloor>;
                     room' = spawnProjectile room
                       \<lparr>pr_projId = projId, pr_type = ''fireball'',
                        pr_x = p_x p, pr_z = p_z p,
                        pr_vx = nx * projectileSpeed, pr_vz = nz * projectileSpeed,
                        pr_rotY = atan2 nx nz,
                        pr_ownerId = p_playerId p,
                        pr_targetEnemyId = e_enemyId target,
                        pr_createdAt = now, pr_expiresAt = now + lifetimeMs,
                        pr_damage = fireball_damage\<rparr>
                 in (room',
                     finish @ emitEvent roomId
                       (Projectile_spawn projId ''fireball'' (p_playerId p) (e_enemyId target)),
                     i + 1))
            | None \<Rightarrow>
                (room,
                 finish @ emitEvent roomId (Spell_effect (p_playerId p) ''fireball'' ''no_target''),
                 i))
         else (room, finish, i))"

text \<open>
  The loop over one player's casts: returns \<open>remaining\<close>, the room (projectiles may have
  been spawned), the events and the next draw.
\<close>

fun casts_loop ::
  "int \<Rightarrow> string \<Rightarrow> (nat \<Rightarrow> real) \<Rightarrow> player \<Rightarrow> cast list \<Rightarrow> room \<Rightarrow> nat
     \<Rightarrow> cast list \<times> room \<times> out list \<times> nat" where
  "casts_loop now roomId rnd p [] room i = ([], room, [], i)"
| "casts_loop now roomId rnd p (c # cs) room i =
     (if now < c_finishAt c then
        (let (remaining, room', evs, i') = casts_loop now roomId rnd p cs room i
         in (c # remaining, room', evs, i'))
      else
        (let (room1, evs1, i1) = cast_due now roomId rnd p c room i;
             (remaining, room2, evs2, i2) = casts_loop now roomId rnd p cs room1 i1
         in (remaining, room2, evs1 @ evs2, i2)))"

text \<open>The loop over the room's players; \<open>p.casts = remaining\<close> is an update at the player's key.\<close>

fun players_casts_loop ::
  "int \<Rightarrow> string \<Rightarrow> (nat \<Rightarrow> real) \<Rightarrow> (string \<times> player) list \<Rightarrow> room \<Rightarrow> nat
     \<Rightarrow> room \<times> out list \<times> nat" where
  "players_casts_loop now roomId rnd [] room i = (room, [], i)"
| "players_casts_loop now roomId rnd ((k, p) # ps) room i =
     (if p_casts p = [] then players_casts_loop now roomId rnd ps room i
      else
        (let (remaining, room1, evs1, i1) = casts_loop now roomId rnd p (p_casts p) room i;
             room2 = room1\<lparr>players := AList.update k (p\<lparr>p_casts := remaining\<rparr>) (players room1)\<rparr>;
             (room3, evs2, i3) = players_casts_loop now roomId rnd ps room2 i1
         in (room3, evs1 @ evs2, i3)))"

subsection \<open>4) Projectiles\<close>

text \<open>
  One iteration of the projectile loop, for the entry \<open>(projId, proj)\<close>: move, then expire,
  otherwise test the hit. \<open>0.6 * 0.6\<close> is \<open>9 / 25\<close>.
\<close>

definition projectile_step ::
  "int \<Rightarrow> real \<Rightarrow> string \<Rightarrow> string \<Rightarrow> projectile \<Rightarrow> room \<Rightarrow> room \<times> out list" where
  "projectile_step now dt roomId projId proj room =
     (let proj' = proj\<lparr>pr_x := pr_x proj + pr_vx proj * dt, pr_z := pr_z proj + pr_vz proj * dt\<rparr>;
          room1 = room\<lparr>projectiles := AList.update projId proj' (projectiles room)\<rparr>
      in if pr_expiresAt proj' \<le> now then
           (room1\<lparr>projectiles := AList.delete projId (projectiles room1)\<rparr>,
            emitEvent roomId (Projectile_despawn projId))
         else if pr_targetEnemyId proj' \<noteq> [] then
           (case findEnemy room1 (Some (pr_targetEnemyId proj')) of
              Some (ek, e) \<Rightarrow>
                (let dx = e_x e - pr_x proj'; dz = e_z e - pr_z proj'
                 in if dx * dx + dz * dz < (6 / 10) * (6 / 10) then
                      (let e' = e\<lparr>e_hp := max 0 (e_hp e - pr_damage proj')\<rparr>
                       in (room1\<lparr>enemies := AList.update ek e' (enemies room1),
                                 projectiles := AList.delete projId (projectiles room1)\<rparr>,
                           emitEvent roomId
                             (Hit projId (pr_ownerId proj') ''enemy'' (e_enemyId e'))
                           @ emitEvent roomId
                               (Damage (pr_ownerId proj') ''enemy'' (e_enemyId e') (pr_damage proj')
                                  (e_hp e') (e_maxHp e'))
                           @ emitEvent roomId (Projectile_despawn projId)
                           @ (if e_hp e' \<le> 0 then emitEvent roomId (Enemy_death (e_enemyId e')) else [])))
                    else (room1, []))
            | None \<Rightarrow> (room1, []))
         else (room1, []))"

fun projectiles_loop ::
  "int \<Rightarrow> real \<Rightarrow> string \<Rightarrow> (string \<times> projectile) list \<Rightarrow> room \<Rightarrow> room \<times> out list" where
  "projectiles_loop now dt roomId [] room = (room, [])"
| "projectiles_loop now dt roomId ((projId, proj) # rest) room =
     (let (room1, evs1) = projectile_step now dt roomId projId proj room;
          (room2, evs2) = projectiles_loop now dt roomId rest room1
      in (room2, evs1 @ evs2))"

subsection \<open>5) Snapshot\<close>

definition snapshot :: "string \<Rightarrow> int \<Rightarrow> room \<Rightarrow> out" where
  "snapshot roomId now room =
     Snapshot roomId now
       (map (\<lambda>(k, p). (p_playerId p, p_name p, p_x p, p_z p, p_rotY p,
                        p_hp p, p_maxHp p, p_mana p, p_maxMana p)) (players room))
       (map (\<lambda>(k, e). (e_enemyId e, e_x e, e_z e, e_rotY e, e_state e, e_hp e, e_maxHp e))
          (enemies room))
       (map (\<lambda>(k, pr). (pr_projId pr, pr_type pr, pr_x pr, pr_z pr, pr_rotY pr, pr_ownerId pr))
          (projectiles room))
       (env room)"

subsection \<open>The tick of one room, and of the registry\<close>

definition tick_room ::
  "int \<Rightarrow> real \<Rightarrow> (nat \<Rightarrow> real) \<Rightarrow> string \<Rightarrow> room \<Rightarrow> nat \<Rightarrow> room \<times> out list \<times> nat" where
  "tick_room now dt rnd roomId room i =
     (let room1 = room\<lparr>players := map (\<lambda>(k, p). (k, move_player dt p)) (players room)\<rparr>;
          (es, i2) = tick_enemies now dt rnd room1 (enemies room1) i;
          room2 = room1\<lparr>enemies := es\<rparr>;
          (room3, evs3, i3) = players_casts_loop now roomId rnd (players room2) room2 i2;
          (room4, evs4) = projectiles_loop now dt roomId (projectiles room3) room3
      in (room4, evs3 @ evs4 @ [snapshot roomId now room4], i3))"

fun tick_rooms ::
  "int \<Rightarrow> real \<Rightarrow> (nat \<Rightarrow> real) \<Rightarrow> (string \<times> room) list \<Rightarrow> nat \<Rightarrow> (string \<times> room) list \<times> out list" where
  "tick_rooms now dt rnd [] i = ([], [])"
| "tick_rooms now dt rnd ((roomId, room) # rest) i =
     (let (room', evs, i') = tick_room now dt rnd roomId room i;
          (rest', evs') = tick_rooms now dt rnd rest i'
      in ((roomId, room') # rest', evs @ evs'))"

text \<open>\<open>dt = clamp((now - lastTick) / 1000, 0, CONFIG.dtClampSeconds)\<close>, in seconds.\<close>

definition tick_dt :: "int \<Rightarrow> server \<Rightarrow> real" where
  "tick_dt now s = clamp (real_of_int (now - lastTick s) / 1000) 0 dtClampSeconds"

definition tick :: "int \<Rightarrow> (nat \<Rightarrow> real) \<Rightarrow> server \<Rightarrow> server \<times> out list" where
  "tick now rnd s =
     (let dt = tick_dt now s;
          (rs, evs) = tick_rooms now dt rnd (rooms s) 0
      in (s\<lparr>rooms := rs, lastTick := now\<rparr>, evs))"

section \<open>The server as a transition system\<close>

text \<open>
  One unit of work that runs to completion: a message of a socket whose payload
  destructures (with the clock reads and random draws its handler makes), or a tick at
  clock value \<open>now\<close>. A handler that throws does so before it reads or writes the
  registry, so a message without a payload adds no transition: it is the error value of
  \<open>on_joinRoom\<close>, \<open>on_input\<close> and \<open>on_action\<close> above, and the steps are those of
  the bodies.
\<close>

datatype msg =
    JoinRoom string "nat \<Rightarrow> real" join_msg
  | Input string input_msg
  | Action string int int action_msg
  | Disconnect string
  | Tick int "nat \<Rightarrow> real"

fun step :: "server \<Rightarrow> msg \<Rightarrow> server \<times> out list" where
  "step s (JoinRoom sid rnd m) = joinRoom_body sid rnd m s"
| "step s (Input sid m) = input_body sid m s"
| "step s (Action sid t1 t2 m) = action_body sid t1 t2 m s"
| "step s (Disconnect sid) = on_disconnect sid s"
| "step s (Tick now rnd) = tick now rnd s"

text \<open>The server starts with an empty registry; \<open>lastTick\<close> is the clock at start-up.\<close>

inductive reachable :: "server \<Rightarrow> bool" where
  start: "reachable \<lparr>rooms = [], lastTick = t0\<rparr>"
| after: "reachable s \<Longrightarrow> reachable (fst (step s m))"

text \<open>Running a list of units of work, collecting what they emit.\<close>

fun run :: "server \<Rightarrow> msg list \<Rightarrow> server \<times> out list" where
  "run s [] = (s, [])"
| "run s (m # ms) =
     (let (s1, evs1) = step s m; (s2, evs2) = run s1 ms in (s2, evs1 @ evs2))"

section \<open>Well-formed server states\<close>

text \<open>
  What holds of every room the handlers and the tick can produce: \<open>Map\<close> keys are unique,
  the enemy map is the seeded one, enemy hit points stay within bounds, players keep their
  initial statistics, projectiles are fireballs under a non-empty id, expire \<open>lifetimeMs\<close>
  after their creation, and are at most one over the capacity.
\<close>

definition enemy_ids :: "string list" where
  "enemy_ids = [''e1'', ''e2'', ''e3'', ''e4'', ''e5'', ''e6'']"

definition players_ok :: "(string \<times> player) list \<Rightarrow> bool" where
  "players_ok ps \<longleftrightarrow>
     distinct (map fst ps)
     \<and> (\<forall>(k, p) \<in> set ps. p_hp p = 100 \<and> p_maxHp p = 100 \<and> p_mana p = 50 \<and> p_maxMana p = 50)"

definition enemies_ok :: "(string \<times> enemy) list \<Rightarrow> bool" where
  "enemies_ok es \<longleftrightarrow>
     map fst es = enemy_ids
     \<and> (\<forall>(k, e) \<in> set es. e_enemyId e = k \<and> 0 \<le> e_hp e \<and> e_hp e \<le> e_maxHp e \<and> e_maxHp e = 50)"

definition projectiles_ok :: "(string \<times> projectile) list \<Rightarrow> bool" where
  "projectiles_ok ps \<longleftrightarrow>
     distinct (map fst ps)
     \<and> length ps \<le> Suc maxProjectilesPerRoom
     \<and> (\<forall>(k, pr) \<in> set ps. k \<noteq> [] \<and> pr_damage pr = fireball_damage
            \<and> pr_targetEnemyId pr \<in> set enemy_ids
            \<and> pr_expiresAt pr = pr_createdAt pr + lifetimeMs)"

definition room_ok :: "room \<Rightarrow> bool" where
  "room_ok r \<longleftrightarrow> players_ok (players r) \<and> enemies_ok (enemies r) \<and> projectiles_ok (projectiles r)"

definition server_ok :: "server \<Rightarrow> bool" where
  "server_ok s \<longleftrightarrow> distinct (map fst (rooms s)) \<and> (\<forall>(k, r) \<in> set (rooms s). room_ok r)"

text \<open>The player of socket \<open>sid\<close> in room \<open>rid\<close>, if both exist.\<close>

definition lookup_player :: "server \<Rightarrow> string \<Rightarrow> string \<Rightarrow> player option" where
  "lookup_player s rid sid =
     (case map_of (rooms s) rid of None \<Rightarrow> None | Some room \<Rightarrow> map_of (players room) sid)"





text \<open>
  A projectile after the move of one tick; whether a (moved) projectile carries a target id
  that names an enemy closer than the hit radius \<open>0.6\<close>; the events that name a projectile.
\<close>

definition moved :: "real \<Rightarrow> projectile \<Rightarrow> projectile" where
  "moved dt pr = pr\<lparr>pr_x := pr_x pr + pr_vx pr * dt, pr_z := pr_z pr + pr_vz pr * dt\<rparr>"

definition in_hit_radius :: "(string \<times> enemy) list \<Rightarrow> projectile \<Rightarrow> bool" where
  "in_hit_radius es pr \<longleftrightarrow>
     pr_targetEnemyId pr \<noteq> []
     \<and> (case map_of es (pr_targetEnemyId pr) of
          None \<Rightarrow> False
        | Some e \<Rightarrow>
            (e_x e - pr_x pr) * (e_x e - pr_x pr) + (e_z e - pr_z pr) * (e_z e - pr_z pr)
              < (6 / 10) * (6 / 10))"

fun about_projectile :: "string \<Rightarrow> string \<Rightarrow> out \<Rightarrow> bool" where
  "about_projectile rid k (Event r (Projectile_despawn k')) = (r = rid \<and> k' = k)"
| "about_projectile rid k (Event r (Hit k' ownerId targetType targetId)) = (r = rid \<and> k' = k)"
| "about_projectile rid k ev = False"

text \<open>
  The index of the first random draw of room \<open>rid\<close>'s tick: the rooms before it in the
  registry have taken theirs.
\<close>

fun first_draw ::
  "int \<Rightarrow> real \<Rightarrow> (nat \<Rightarrow> real) \<Rightarrow> (string \<times> room) list \<Rightarrow> string \<Rightarrow> nat \<Rightarrow> nat" where
  "first_draw now dt rnd [] rid i = i"
| "first_draw now dt rnd ((r, room) # rest) rid i =
     (if r = rid then i
      else first_draw now dt rnd rest rid (snd (snd (tick_room now dt rnd r room i))))"




text \<open>
  The first three parts of a room's tick (players, enemies, casts): the room as its
  projectile loop finds it, the events so far and the next draw.
\<close>

definition cast_phase ::
  "int \<Rightarrow> real \<Rightarrow> (nat \<Rightarrow> real) \<Rightarrow> string \<Rightarrow> room \<Rightarrow> nat \<Rightarrow> room \<times> out list \<times> nat" where
  "cast_phase now dt rnd roomId room i =
     (let room1 = room\<lparr>players := map (\<lambda>(k, p). (k, move_player dt p)) (players room)\<rparr>;
          (es, i2) = tick_enemies now dt rnd room1 (enemies room1) i;
          room2 = room1\<lparr>enemies := es\<rparr>
      in players_casts_loop now roomId rnd (players room2) room2 i2)"

text \<open>
  The life of the projectile stored under \<open>k\<close> in room \<open>rid\<close>, as the claim describes it.
  At a tick the projectile is lost when the casts resolved by this tick have evicted it
  (capacity bound) or stored another projectile under its id, or when the room is gone.
  Otherwise it expires when \<open>now \<ge> createdAt + 2500\<close>; otherwise it strikes when, after
  the move of this tick, it is within the hit radius of its target, at the position the
  target has after its own move in this tick; otherwise it flies on, moved. Any other
  unit of work leaves it as it is, unless it removes the room (a disconnect of the last
  player). The fate over a run is the fate at the first unit of work that ends the
  flight.
\<close>

datatype fate = Flying projectile | Expired | Struck | Lost

definition tick_fate ::
  "int \<Rightarrow> (nat \<Rightarrow> real) \<Rightarrow> server \<Rightarrow> string \<Rightarrow> string \<Rightarrow> projectile \<Rightarrow> fate" where
  "tick_fate now rnd s rid k pr =
     (case map_of (rooms s) rid of
        None \<Rightarrow> Lost
      | Some room \<Rightarrow>
          (let dt = tick_dt now s;
               room3 = fst (cast_phase now dt rnd rid room (first_draw now dt rnd (rooms s) rid 0))
           in if map_of (projectiles room3) k \<noteq> Some pr then Lost
              else if pr_createdAt pr + 2500 \<le> now then Expired
              else if in_hit_radius (enemies room3) (moved dt pr) then Struck
              else Flying (moved dt pr)))"

fun step_fate :: "server \<Rightarrow> string \<Rightarrow> string \<Rightarrow> projectile \<Rightarrow> msg \<Rightarrow> fate" where
  "step_fate s rid k pr (Tick now rnd) = tick_fate now rnd s rid k pr"
| "step_fate s rid k pr m =
     (if map_of (rooms (fst (step s m))) rid = None then Lost else Flying pr)"

fun fate_after :: "server \<Rightarrow> string \<Rightarrow> string \<Rightarrow> projectile \<Rightarrow> msg list \<Rightarrow> fate" where
  "fate_after s rid k pr [] = Flying pr"
| "fate_after s rid k pr (m # ms) =
     (case step_fate s rid k pr m of
        Flying pr' \<Rightarrow> fate_after (fst (step s m)) rid k pr' ms
      | Expired \<Rightarrow> Expired
      | Struck \<Rightarrow> Struck
      | Lost \<Rightarrow> Lost)"

section \<open>Concrete states for the witnesses\<close>

definition w_join :: join_msg where
  "w_join = \<lparr>j_roomId = ''r1'', j_playerId = Some ''p1'', j_name = None\<rparr>"

definition w_player :: player where
  "w_player = new_player ''s1'' w_join"

text \<open>Enemy \<open>e1\<close> at the origin with \<open>h\<close> hit points.\<close>

definition w_enemy :: "int \<Rightarrow> enemy" where
  "w_enemy h = (new_enemy 0 (1 / 2) (1 / 2))\<lparr>e_hp := h\<rparr>"

definition w_room :: "int \<Rightarrow> room" where
  "w_room h =
     \<lparr>players = [(''s1'', w_player)], enemies = [(''e1'', w_enemy h)], projectiles = [],
      env = \<lparr>timeOfDay = 12, weather = ''clear''\<rparr>\<rparr>"

definition w_server :: "int \<Rightarrow> server" where
  "w_server h = \<lparr>rooms = [(''r1'', w_room h)], lastTick = 0\<rparr>"

definition w_attack :: action_msg where
  "w_attack = \<lparr>a_roomId = ''r1'', a_actorId = None, a_type = ''attack'',
               a_payload = \<lparr>pl_spellId = None, pl_targetEnemyId = Some ''e1''\<rparr>\<rparr>"

definition w_input :: input_msg where
  "w_input = \<lparr>i_roomId = ''r1'', i_vx = JNum 1, i_vz = JStr ''fast'', i_rotY = JUndefined\<rparr>"

definition w_rnd :: "nat \<Rightarrow> real" where
  "w_rnd i = 1 / 2"

definition w_start :: server where
  "w_start = \<lparr>rooms = [], lastTick = 0\<rparr>"

definition w_joined :: server where
  "w_joined = fst (step w_start (JoinRoom ''s1'' w_rnd w_join))"

definition w_joined_room :: room where
  "w_joined_room = (new_room w_rnd)\<lparr>players := [(''s1'', w_player)]\<rparr>"

text \<open>A fireball under the id \<open>k\<close>, and a room holding 201 of them.\<close>

definition w_proj :: "string \<Rightarrow> projectile" where
  "w_proj k =
     \<lparr>pr_projId = k, pr_type = ''fireball'', pr_x = 0, pr_z = 0, pr_vx = 10, pr_vz = 0,
      pr_rotY = 0, pr_ownerId = ''p1'', pr_targetEnemyId = ''e1'',
      pr_createdAt = 0, pr_expiresAt = 2500, pr_damage = 12\<rparr>"

definition w_full :: room where
  "w_full = (w_room 50)\<lparr>projectiles :=
     map (\<lambda>i. (replicate (Suc i) (CHR ''p''), w_proj (replicate (Suc i) (CHR ''p'')))) [0..<201]\<rparr>"

definition w_input_x :: input_msg where
  "w_input_x = \<lparr>i_roomId = ''r1'', i_vx = JNum 1, i_vz = JNum 0, i_rotY = JUndefined\<rparr>"

definition w_moving :: server where
  "w_moving = fst (step w_joined (Input ''s1'' w_input_x))"

definition w_join2 :: join_msg where
  "w_join2 = \<lparr>j_roomId = ''r2'', j_playerId = Some ''p1'', j_name = None\<rparr>"

definition w_two :: server where
  "w_two = fst (step w_joined (JoinRoom ''s1'' w_rnd w_join2))"

definition w_room2 :: room where
  "w_room2 = (new_room w_rnd)\<lparr>players := [(''s1'', new_player ''s1'' w_join2)]\<rparr>"

definition w_cast :: action_msg where
  "w_cast = \<lparr>a_roomId = ''r1'', a_actorId = None, a_type = ''cast'',
             a_payload = \<lparr>pl_spellId = None, pl_targetEnemyId = Some ''e1''\<rparr>\<rparr>"



text \<open>Enemy \<open>e1\<close> at \<open>(3, 4)\<close>, the player at the origin.\<close>

definition w_room_far :: room where
  "w_room_far = (w_room 50)\<lparr>enemies := [(''e1'', (w_enemy 50)\<lparr>e_x := 3, e_z := 4\<rparr>)]\<rparr>"


text \<open>
  A fireball one unit left of its target \<open>e1\<close> (which sits at the origin), flying right at
  10 units per second, expiring at 2500 ms, in a room of its own.
\<close>

definition w_shot :: projectile where
  "w_shot = (w_proj ''k'')\<lparr>pr_x := - 1\<rparr>"

definition w_room_hit :: room where
  "w_room_hit = (w_room 50)\<lparr>projectiles := [(''k'', w_shot)]\<rparr>"







text \<open>
  A room whose six enemies are seeded at \<open>(6, 8)\<close>: the draws alternate between \<open>0.8\<close>
  and \<open>0.9\<close>. The player stays at the origin, so the enemies chase it along the ray
  through \<open>(3, 4)\<close>; a fireball cast at \<open>e1\<close> flies along the same ray with velocity
  \<open>(6, 8)\<close>. \<open>v_enemies d \<dots> h\<close> are the six enemies at distance \<open>d\<close> from the origin,
  \<open>e1\<close> with \<open>h\<close> hit points; \<open>v_shot t\<close> is the fireball after \<open>t\<close> seconds of
  flight.
\<close>

definition w_rnd2 :: "nat \<Rightarrow> real" where
  "w_rnd2 i = (if even i then 4 / 5 else 9 / 10)"

definition v_enemy :: "string \<Rightarrow> real \<Rightarrow> enemy_state \<Rightarrow> real \<Rightarrow> real \<Rightarrow> real \<Rightarrow> int \<Rightarrow> enemy" where
  "v_enemy k d st vx vz rot h =
     \<lparr>e_enemyId = k, e_x = d * 3 / 5, e_z = d * 4 / 5, e_vx = vx, e_vz = vz, e_rotY = rot,
      e_state = st, e_nextWanderAt = 0, e_hp = h, e_maxHp = 50\<rparr>"

definition v_enemies ::
  "real \<Rightarrow> enemy_state \<Rightarrow> real \<Rightarrow> real \<Rightarrow> real \<Rightarrow> int \<Rightarrow> (string \<times> enemy) list" where
  "v_enemies d st vx vz rot h =
     [(''e1'', v_enemy ''e1'' d st vx vz rot h), (''e2'', v_enemy ''e2'' d st vx vz rot 50),
      (''e3'', v_enemy ''e3'' d st vx vz rot 50), (''e4'', v_enemy ''e4'' d st vx vz rot 50),
      (''e5'', v_enemy ''e5'' d st vx vz rot 50), (''e6'', v_enemy ''e6'' d st vx vz rot 50)]"

definition v_chasers :: "real \<Rightarrow> int \<Rightarrow> (string \<times> enemy) list" where
  "v_chasers d h = v_enemies d Chase (- 3 / 5) (- 4 / 5) (atan2 (- 3 / 5) (- 4 / 5)) h"

definition v_room ::
  "cast list \<Rightarrow> (string \<times> enemy) list \<Rightarrow> (string \<times> projectile) list \<Rightarrow> room" where
  "v_room cs es prs =
     \<lparr>players = [(''s1'', w_player\<lparr>p_casts := cs\<rparr>)], enemies = es, projectiles = prs,
      env = \<lparr>timeOfDay = 12, weather = ''clear''\<rparr>\<rparr>"

definition v_shot :: "real \<Rightarrow> projectile" where
  "v_shot t =
     \<lparr>pr_projId = ''p_p1_650_7999'', pr_type = ''fireball'', pr_x = 6 * t, pr_z = 8 * t,
      pr_vx = 6, pr_vz = 8, pr_rotY = atan2 (3 / 5) (4 / 5), pr_ownerId = ''p1'',
      pr_targetEnemyId = ''e1'', pr_createdAt = 650, pr_expiresAt = 3150, pr_damage = 12\<rparr>"

text \<open>
  Join, cast a fireball at \<open>e1\<close> at time 0, and tick at 650 ms: the fireball is in flight.
  The same with a cast at the unknown enemy \<open>e9\<close>.
\<close>

definition v_joined :: server where
  "v_joined = fst (step w_start (JoinRoom ''s1'' w_rnd2 w_join))"

definition v_casting :: server where
  "v_casting = fst (step v_joined (Action ''s1'' 0 0 w_cast))"

definition v_flying :: server where
  "v_flying = fst (step v_casting (Tick 650 w_rnd2))"



section \<open>Verification\<close>

subsection \<open>Association lists\<close>

lemma set_update_subset: "set (AList.update k v al) \<subseteq> insert (k, v) (set al)"
  by (induction al) auto

lemma set_delete_subset: "set (AList.delete k al) \<subseteq> set al"
  by (induction al) auto

lemma in_set_updateD:
  "(a, b) \<in> set (AList.update k v al) \<Longrightarrow> (a, b) = (k, v) \<or> (a, b) \<in> set al"
  using set_update_subset [of k v al] by blast

lemma in_set_deleteD: "(a, b) \<in> set (AList.delete k al) \<Longrightarrow> (a, b) \<in> set al"
  using set_delete_subset [of k al] by blast

lemma update_present_keys:
  "map_of al k = Some w \<Longrightarrow> map fst (AList.update k v al) = map fst al"
  by (induction al) (auto split: if_splits)

lemma length_update_present:
  "map_of al k = Some w \<Longrightarrow> length (AList.update k v al) = length al"
  using update_present_keys [of al k w v] by (metis length_map)

lemma length_update_le: "length (AList.update k v al) \<le> Suc (length al)"
  by (induction al) auto

lemma update_in_middle:
  "k \<notin> fst ` set xs \<Longrightarrow> AList.update k v (xs @ (k, w) # ys) = xs @ (k, v) # ys"
  by (induction xs) auto

lemma delete_in_middle:
  "k \<notin> fst ` set xs \<Longrightarrow> k \<notin> fst ` set ys \<Longrightarrow> AList.delete k (xs @ (k, w) # ys) = xs @ ys"
  by (induction xs) auto

subsection \<open>What each part of the tick leaves alone\<close>

lemma spawnProjectile_frame:
  "players (spawnProjectile room proj) = players room"
  "enemies (spawnProjectile room proj) = enemies room"
  "env (spawnProjectile room proj) = env room"
  by (simp_all add: spawnProjectile_def Let_def)

lemma cast_due_frame:
  assumes "cast_due now rid rnd p c room i = (room', evs, i')"
  shows "players room' = players room" and "enemies room' = enemies room"
  using assms
  by (auto simp: cast_due_def Let_def spawnProjectile_frame split: if_splits option.splits prod.splits)

lemma casts_loop_frame:
  assumes "casts_loop now rid rnd p cs room i = (rem, room', evs, i')"
  shows "players room' = players room \<and> enemies room' = enemies room"
  using assms
proof (induction cs arbitrary: room i rem room' evs i')
  case Nil
  then show ?case by simp
next
  case (Cons c cs)
  show ?case
  proof (cases "now < c_finishAt c")
    case True
    with Cons.prems obtain rem0 where "casts_loop now rid rnd p cs room i = (rem0, room', evs, i')"
      by (auto split: prod.splits)
    then show ?thesis by (rule Cons.IH)
  next
    case False
    obtain room1 evs1 i1 where d: "cast_due now rid rnd p c room i = (room1, evs1, i1)"
      by (cases "cast_due now rid rnd p c room i") auto
    with False Cons.prems obtain evs2 where "casts_loop now rid rnd p cs room1 i1 = (rem, room', evs2, i')"
      by (auto split: prod.splits)
    then have "players room' = players room1 \<and> enemies room' = enemies room1" by (rule Cons.IH)
    with cast_due_frame [OF d] show ?thesis by simp
  qed
qed

lemma casts_loop_remaining:
  "fst (casts_loop now rid rnd p cs room i) = filter (\<lambda>c. now < c_finishAt c) cs"
  by (induction cs arbitrary: room i) (simp_all add: case_prod_beta Let_def)

lemma projectile_step_players:
  "players (fst (projectile_step now dt rid k pr room)) = players room"
  by (simp add: projectile_step_def Let_def split: option.splits prod.splits)

lemma projectiles_loop_players:
  "players (fst (projectiles_loop now dt rid entries room)) = players room"
proof (induction entries arbitrary: room)
  case Nil
  then show ?case by simp
next
  case (Cons a entries)
  obtain k pr where a: "a = (k, pr)" by (cases a)
  show ?case
    using Cons.IH [of "fst (projectile_step now dt rid k pr room)"]
    by (simp add: a projectile_step_players case_prod_beta Let_def)
qed


subsection \<open>Seeding\<close>

lemma show_nat_Suc_digits:
  "show_nat (Suc 0) = ''1''"
  "show_nat (Suc (Suc 0)) = ''2''"
  "show_nat (Suc (Suc (Suc 0))) = ''3''"
  "show_nat (Suc (Suc (Suc (Suc 0)))) = ''4''"
  "show_nat (Suc (Suc (Suc (Suc (Suc 0))))) = ''5''"
  "show_nat (Suc (Suc (Suc (Suc (Suc (Suc 0)))))) = ''6''"
  by (simp_all add: show_nat.simps)

lemma show_nat_digits:
  "show_nat 2 = ''2''" "show_nat 3 = ''3''"
  "show_nat 4 = ''4''" "show_nat 5 = ''5''" "show_nat 6 = ''6''"
  by (simp_all add: show_nat.simps)

lemma seeded_enemies:
  "seed_enemies rnd 0 enemyCount [] =
     [(''e1'', new_enemy 0 (rnd 0) (rnd 1)), (''e2'', new_enemy 1 (rnd 2) (rnd 3)),
      (''e3'', new_enemy 2 (rnd 4) (rnd 5)), (''e4'', new_enemy 3 (rnd 6) (rnd 7)),
      (''e5'', new_enemy 4 (rnd 8) (rnd 9)), (''e6'', new_enemy 5 (rnd 10) (rnd 11))]"
  by (simp add: enemyCount_def eval_nat_numeral show_nat_Suc_digits)

lemma new_room_ok: "room_ok (new_room rnd)"
  by (simp add: room_ok_def new_room_def seeded_enemies players_ok_def enemies_ok_def
      projectiles_ok_def enemy_ids_def new_enemy_def show_nat_digits show_nat_Suc_digits)

subsection \<open>Preservation of well-formedness\<close>

lemma players_ok_update:
  assumes "players_ok ps"
    and "p_hp p = 100 \<and> p_maxHp p = 100 \<and> p_mana p = 50 \<and> p_maxMana p = 50"
  shows "players_ok (AList.update k p ps)"
  using assms unfolding players_ok_def
  by (auto simp: distinct_update dest!: in_set_updateD)

lemma players_ok_delete: "players_ok ps \<Longrightarrow> players_ok (AList.delete k ps)"
  unfolding players_ok_def by (auto simp: distinct_delete dest!: in_set_deleteD)

lemma players_ok_lookup:
  "players_ok ps \<Longrightarrow> map_of ps k = Some p \<Longrightarrow>
     p_hp p = 100 \<and> p_maxHp p = 100 \<and> p_mana p = 50 \<and> p_maxMana p = 50"
  unfolding players_ok_def by (force dest: map_of_SomeD)

lemma enemies_ok_lookup:
  "enemies_ok es \<Longrightarrow> map_of es k = Some e \<Longrightarrow>
     e_enemyId e = k \<and> k \<in> set enemy_ids \<and> 0 \<le> e_hp e \<and> e_hp e \<le> e_maxHp e \<and> e_maxHp e = 50"
proof -
  assume ok: "enemies_ok es" and l: "map_of es k = Some e"
  from l have m: "(k, e) \<in> set es" by (rule map_of_SomeD)
  then have "k \<in> set (map fst es)" by force
  with ok m show ?thesis unfolding enemies_ok_def by auto
qed

lemma enemies_ok_hit:
  assumes "enemies_ok es" and "map_of es k = Some e" and "0 \<le> d"
  shows "enemies_ok (AList.update k (e\<lparr>e_hp := max 0 (e_hp e - d)\<rparr>) es)"
proof -
  note f = enemies_ok_lookup [OF assms(1,2)]
  have "set (AList.update k (e\<lparr>e_hp := max 0 (e_hp e - d)\<rparr>) es)
          \<subseteq> insert (k, e\<lparr>e_hp := max 0 (e_hp e - d)\<rparr>) (set es)"
    by (rule set_update_subset)
  moreover have "map fst (AList.update k (e\<lparr>e_hp := max 0 (e_hp e - d)\<rparr>) es) = map fst es"
    using assms(2) by (rule update_present_keys)
  ultimately show ?thesis
    using assms(1,3) f unfolding enemies_ok_def by auto
qed

lemma spawnProjectile_ok:
  assumes "projectiles_ok (projectiles room)"
    and "pr_projId proj \<noteq> []" and "pr_damage proj = fireball_damage"
    and "pr_targetEnemyId proj \<in> set enemy_ids"
    and "pr_expiresAt proj = pr_createdAt proj + lifetimeMs"
  shows "projectiles_ok (projectiles (spawnProjectile room proj))"
proof -
  define ps where "ps =
        (if length (projectiles room) > maxProjectilesPerRoom then
           (case projectiles room of
              [] \<Rightarrow> []
            | (firstKey, old) # rest \<Rightarrow>
                if firstKey \<noteq> [] then AList.delete firstKey (projectiles room)
                else projectiles room)
         else projectiles room)"
  have sub: "set ps \<subseteq> set (projectiles room)"
    unfolding ps_def by (auto split: list.splits dest!: in_set_deleteD)
  have dist: "distinct (map fst ps)"
    using assms(1) unfolding ps_def projectiles_ok_def
    by (auto split: list.splits simp: distinct_delete)
  have len: "length ps \<le> maxProjectilesPerRoom"
  proof (cases "length (projectiles room) > maxProjectilesPerRoom")
    case False
    then show ?thesis by (simp add: ps_def)
  next
    case True
    then obtain k old rest where c: "projectiles room = (k, old) # rest"
      by (cases "projectiles room") auto
    with assms(1) have k: "k \<noteq> []" unfolding projectiles_ok_def by auto
    from c assms(1) have "length rest \<le> maxProjectilesPerRoom"
      unfolding projectiles_ok_def by simp
    moreover have "length (AList.delete k rest) \<le> length rest" by (rule length_delete_le)
    ultimately show ?thesis using True c k by (simp add: ps_def)
  qed
  have "length (AList.update (pr_projId proj) proj ps) \<le> Suc (length ps)"
    by (rule length_update_le)
  then have "projectiles_ok (AList.update (pr_projId proj) proj ps)"
    using assms sub dist len unfolding projectiles_ok_def
    by (auto simp: distinct_update dest!: in_set_updateD)
  then show ?thesis by (simp add: spawnProjectile_def ps_def)
qed

lemma cast_due_ok:
  assumes "room_ok room"
  shows "room_ok (fst (cast_due now rid rnd p c room i))"
proof (cases "c_spellId c = ''fireball'' \<and> truthy (c_targetEnemyId c)
              \<and> findEnemy room (c_targetEnemyId c) \<noteq> None")
  case False
  then show ?thesis using assms
    by (auto simp: cast_due_def Let_def split: option.splits)
next
  case True
  then obtain ek target where t: "findEnemy room (c_targetEnemyId c) = Some (ek, target)"
    by auto
  then have "map_of (enemies room) ek = Some target"
    by (auto simp: findEnemy_def split: option.splits)
  with assms have "e_enemyId target \<in> set enemy_ids"
    using enemies_ok_lookup [of "enemies room" ek target] by (simp add: room_ok_def)
  with True t assms show ?thesis
    by (simp add: cast_due_def Let_def case_prod_beta room_ok_def spawnProjectile_frame
        spawnProjectile_ok)
qed

lemma casts_loop_ok:
  "room_ok room \<Longrightarrow> room_ok (fst (snd (casts_loop now rid rnd p cs room i)))"
proof (induction cs arbitrary: room i)
  case Nil
  then show ?case by simp
next
  case (Cons c cs)
  show ?case
  proof (cases "now < c_finishAt c")
    case True
    with Cons show ?thesis by (simp add: case_prod_beta)
  next
    case False
    have "room_ok (fst (cast_due now rid rnd p c room i))"
      using Cons.prems by (rule cast_due_ok)
    then have "room_ok (fst (snd (casts_loop now rid rnd p cs
                 (fst (cast_due now rid rnd p c room i))
                 (snd (snd (cast_due now rid rnd p c room i))))))"
      by (rule Cons.IH)
    with False show ?thesis by (simp add: case_prod_beta)
  qed
qed

lemma casts_loop_players:
  "players (fst (snd (casts_loop now rid rnd p cs room i))) = players room"
  using casts_loop_frame [of now rid rnd p cs room i]
  by (cases "casts_loop now rid rnd p cs room i") auto

lemma players_casts_loop_ok:
  assumes "room_ok room"
    and "\<forall>(k, p) \<in> set ps. p_hp p = 100 \<and> p_maxHp p = 100 \<and> p_mana p = 50 \<and> p_maxMana p = 50"
  shows "room_ok (fst (players_casts_loop now rid rnd ps room i))"
  using assms
proof (induction ps arbitrary: room i)
  case Nil
  then show ?case by simp
next
  case (Cons a ps)
  obtain k p where a: "a = (k, p)" by (cases a)
  show ?case
  proof (cases "p_casts p = []")
    case True
    with Cons a show ?thesis by simp
  next
    case False
    define r where "r = casts_loop now rid rnd p (p_casts p) room i"
    define room2 where
      "room2 = (fst (snd r))\<lparr>players := AList.update k (p\<lparr>p_casts := fst r\<rparr>) (players (fst (snd r)))\<rparr>"
    have ok1: "room_ok (fst (snd r))"
      unfolding r_def using Cons.prems(1) by (rule casts_loop_ok)
    have "players_ok (AList.update k (p\<lparr>p_casts := fst r\<rparr>) (players (fst (snd r))))"
      using ok1 Cons.prems(2) a by (intro players_ok_update) (auto simp: room_ok_def)
    with ok1 have "room_ok room2" by (simp add: room2_def room_ok_def)
    moreover from Cons.prems(2) have
      "\<forall>(k, p) \<in> set ps. p_hp p = 100 \<and> p_maxHp p = 100 \<and> p_mana p = 50 \<and> p_maxMana p = 50"
      by simp
    ultimately have "room_ok (fst (players_casts_loop now rid rnd ps room2 (snd (snd (snd r)))))"
      by (rule Cons.IH)
    with False show ?thesis
      by (simp add: a case_prod_beta Let_def r_def room2_def)
  qed
qed


lemma projectiles_ok_moved:
  assumes "projectiles_ok ps" and "map_of ps k = Some pr0"
    and "pr_damage pr = fireball_damage" and "pr_targetEnemyId pr \<in> set enemy_ids"
    and "pr_expiresAt pr = pr_createdAt pr + lifetimeMs"
  shows "projectiles_ok (AList.update k pr ps)"
proof -
  from assms(2) have "(k, pr0) \<in> set ps" by (rule map_of_SomeD)
  with assms(1) have "k \<noteq> []" unfolding projectiles_ok_def by auto
  moreover have "length (AList.update k pr ps) = length ps"
    using assms(2) by (rule length_update_present)
  ultimately show ?thesis
    using assms(1,3,4,5) unfolding projectiles_ok_def
    by (auto simp: distinct_update dest!: in_set_updateD)
qed

lemma projectiles_ok_delete: "projectiles_ok ps \<Longrightarrow> projectiles_ok (AList.delete k ps)"
proof -
  assume ok: "projectiles_ok ps"
  have "length (AList.delete k ps) \<le> length ps" by (rule length_delete_le)
  with ok show ?thesis
    unfolding projectiles_ok_def by (auto simp: distinct_delete dest!: in_set_deleteD)
qed

lemma projectile_step_ok:
  assumes "room_ok room" and "map_of (projectiles room) k = Some pr0"
    and "pr_damage pr = fireball_damage" and "pr_targetEnemyId pr \<in> set enemy_ids"
    and "pr_expiresAt pr = pr_createdAt pr + lifetimeMs"
  shows "room_ok (fst (projectile_step now dt rid k pr room))"
proof -
  define pr' where "pr' = pr\<lparr>pr_x := pr_x pr + pr_vx pr * dt, pr_z := pr_z pr + pr_vz pr * dt\<rparr>"
  define room1 where "room1 = room\<lparr>projectiles := AList.update k pr' (projectiles room)\<rparr>"
  have p1: "projectiles_ok (projectiles room1)"
    unfolding room1_def using assms
    by (simp add: room_ok_def pr'_def projectiles_ok_moved [where ?pr0.0 = pr0])
  then have ok1: "room_ok room1" using assms(1) by (simp add: room_ok_def room1_def)
  have del: "room_ok (room1\<lparr>projectiles := AList.delete k (projectiles room1)\<rparr>)"
    using ok1 by (simp add: room_ok_def projectiles_ok_delete)
  have hit: "room_ok (room1\<lparr>enemies := AList.update ek (e\<lparr>e_hp := max 0 (e_hp e - pr_damage pr')\<rparr>) (enemies room1),
                          projectiles := AList.delete k (projectiles room1)\<rparr>)"
    if "map_of (enemies room1) ek = Some e" for ek e
    using ok1 that
    by (simp add: room_ok_def projectiles_ok_delete enemies_ok_hit pr'_def assms(3) fireball_damage_def)
  have f: "findEnemy room1 (Some t) = Some (ek, e) \<Longrightarrow> map_of (enemies room1) ek = Some e" for t ek e
    by (auto simp: findEnemy_def)
  show ?thesis
    unfolding projectile_step_def Let_def pr'_def [symmetric] room1_def [symmetric]
    using ok1 del hit f
    by (auto split: option.splits)
qed

lemma projectile_step_present:
  "k' \<noteq> k \<Longrightarrow>
     map_of (projectiles (fst (projectile_step now dt rid k pr room))) k' = map_of (projectiles room) k'"
  unfolding projectile_step_def Let_def
  by (auto split: option.splits simp: update_conv' delete_conv')

lemma projectiles_loop_ok:
  assumes "room_ok room" and "distinct (map fst entries)"
    and "\<forall>(k, pr) \<in> set entries. map_of (projectiles room) k \<noteq> None
           \<and> pr_damage pr = fireball_damage \<and> pr_targetEnemyId pr \<in> set enemy_ids
           \<and> pr_expiresAt pr = pr_createdAt pr + lifetimeMs"
  shows "room_ok (fst (projectiles_loop now dt rid entries room))"
  using assms
proof (induction entries arbitrary: room)
  case Nil
  then show ?case by simp
next
  case (Cons a entries)
  obtain k pr where a: "a = (k, pr)" by (cases a)
  define room1 where "room1 = fst (projectile_step now dt rid k pr room)"
  from Cons.prems(3) a obtain pr0 where "map_of (projectiles room) k = Some pr0"
    by auto
  with Cons.prems a have ok1: "room_ok room1"
    unfolding room1_def by (intro projectile_step_ok) auto
  have "\<forall>(k', pr') \<in> set entries. map_of (projectiles room1) k' \<noteq> None
           \<and> pr_damage pr' = fireball_damage \<and> pr_targetEnemyId pr' \<in> set enemy_ids
           \<and> pr_expiresAt pr' = pr_createdAt pr' + lifetimeMs"
  proof (intro ballI, clarify)
    fix k' pr'
    assume m: "(k', pr') \<in> set entries"
    with Cons.prems(2) a have "k' \<noteq> k" by force
    then have "map_of (projectiles room1) k' = map_of (projectiles room) k'"
      unfolding room1_def by (rule projectile_step_present)
    with m Cons.prems(3) show "map_of (projectiles room1) k' \<noteq> None
           \<and> pr_damage pr' = fireball_damage \<and> pr_targetEnemyId pr' \<in> set enemy_ids
           \<and> pr_expiresAt pr' = pr_createdAt pr' + lifetimeMs"
      by auto
  qed
  moreover from Cons.prems(2) have "distinct (map fst entries)" by simp
  ultimately have "room_ok (fst (projectiles_loop now dt rid entries room1))"
    using ok1 by (intro Cons.IH)
  then show ?case by (simp add: a case_prod_beta Let_def room1_def)
qed

lemma tick_enemy_fields:
  "e_hp (fst (tick_enemy now dt rnd room e i)) = e_hp e"
  "e_maxHp (fst (tick_enemy now dt rnd room e i)) = e_maxHp e"
  "e_enemyId (fst (tick_enemy now dt rnd room e i)) = e_enemyId e"
  by (simp_all add: tick_enemy_def Let_def case_prod_beta split: option.splits)

lemma tick_enemies_keys:
  "map fst (fst (tick_enemies now dt rnd room es i)) = map fst es"
  by (induction es arbitrary: i) (auto simp: case_prod_beta Let_def)

lemma tick_enemies_fields:
  assumes "(k, e') \<in> set (fst (tick_enemies now dt rnd room es i))"
  shows "\<exists>e. (k, e) \<in> set es \<and> e_hp e' = e_hp e \<and> e_maxHp e' = e_maxHp e \<and> e_enemyId e' = e_enemyId e"
  using assms
proof (induction es arbitrary: i)
  case Nil
  then show ?case by simp
next
  case (Cons a es)
  obtain k0 e0 where a: "a = (k0, e0)" by (cases a)
  from Cons.prems have "(k, e') = (k0, fst (tick_enemy now dt rnd room e0 i))
      \<or> (k, e') \<in> set (fst (tick_enemies now dt rnd room es (snd (tick_enemy now dt rnd room e0 i))))"
    by (simp add: a case_prod_beta Let_def)
  then show ?case
  proof
    assume "(k, e') = (k0, fst (tick_enemy now dt rnd room e0 i))"
    then show ?thesis by (auto simp: a tick_enemy_fields)
  next
    assume "(k, e') \<in> set (fst (tick_enemies now dt rnd room es (snd (tick_enemy now dt rnd room e0 i))))"
    from Cons.IH [OF this] show ?thesis by auto
  qed
qed

lemma tick_enemies_ok:
  "enemies_ok es \<Longrightarrow> enemies_ok (fst (tick_enemies now dt rnd room es i))"
  unfolding enemies_ok_def
  by (auto simp: tick_enemies_keys dest!: tick_enemies_fields)


lemma move_player_fields:
  "p_hp (move_player dt p) = p_hp p" "p_maxHp (move_player dt p) = p_maxHp p"
  "p_mana (move_player dt p) = p_mana p" "p_maxMana (move_player dt p) = p_maxMana p"
  "p_casts (move_player dt p) = p_casts p" "p_playerId (move_player dt p) = p_playerId p"
  "p_vx (move_player dt p) = p_vx p" "p_vz (move_player dt p) = p_vz p"
  "p_socketId (move_player dt p) = p_socketId p" "p_name (move_player dt p) = p_name p"
  by (simp_all add: move_player_def Let_def case_prod_beta)

lemma players_ok_moved:
  "players_ok ps \<Longrightarrow> players_ok (map (\<lambda>(k, p). (k, move_player dt p)) ps)"
proof -
  have e: "fst \<circ> (\<lambda>(k, p). (k, move_player dt p)) = fst"
    by (auto simp: fun_eq_iff)
  show "players_ok ps \<Longrightarrow> players_ok (map (\<lambda>(k, p). (k, move_player dt p)) ps)"
    unfolding players_ok_def by (auto simp: e move_player_fields)
qed

lemma tick_room_ok:
  assumes "room_ok room"
  shows "room_ok (fst (tick_room now dt rnd rid room i))"
proof -
  define room1 where "room1 = room\<lparr>players := map (\<lambda>(k, p). (k, move_player dt p)) (players room)\<rparr>"
  define r2 where "r2 = tick_enemies now dt rnd room1 (enemies room1) i"
  define room2 where "room2 = room1\<lparr>enemies := fst r2\<rparr>"
  define r3 where "r3 = players_casts_loop now rid rnd (players room2) room2 (snd r2)"
  define r4 where "r4 = projectiles_loop now dt rid (projectiles (fst r3)) (fst r3)"
  have ok1: "room_ok room1"
    using assms by (simp add: room1_def room_ok_def players_ok_moved)
  then have ok2: "room_ok room2"
    by (simp add: room2_def r2_def room_ok_def tick_enemies_ok)
  then have "\<forall>(k, p) \<in> set (players room2).
               p_hp p = 100 \<and> p_maxHp p = 100 \<and> p_mana p = 50 \<and> p_maxMana p = 50"
    by (simp add: room_ok_def players_ok_def)
  with ok2 have ok3: "room_ok (fst r3)"
    unfolding r3_def by (rule players_casts_loop_ok)
  then have p3: "projectiles_ok (projectiles (fst r3))" by (simp add: room_ok_def)
  then have d3: "distinct (map fst (projectiles (fst r3)))" by (simp add: projectiles_ok_def)
  have "\<forall>(k, pr) \<in> set (projectiles (fst r3)). map_of (projectiles (fst r3)) k \<noteq> None
           \<and> pr_damage pr = fireball_damage \<and> pr_targetEnemyId pr \<in> set enemy_ids
           \<and> pr_expiresAt pr = pr_createdAt pr + lifetimeMs"
    using p3 d3 by (auto simp: projectiles_ok_def dest: map_of_is_SomeI)
  with ok3 d3 have "room_ok (fst r4)"
    unfolding r4_def by (intro projectiles_loop_ok)
  then show ?thesis
    by (simp add: tick_room_def Let_def case_prod_beta r4_def r3_def room2_def r2_def room1_def)
qed

lemma tick_rooms_keys: "map fst (fst (tick_rooms now dt rnd rs i)) = map fst rs"
  by (induction rs arbitrary: i) (auto simp: case_prod_beta Let_def)

lemma tick_rooms_member:
  "(k, r) \<in> set (fst (tick_rooms now dt rnd rs i)) \<Longrightarrow>
     \<exists>r0 j. (k, r0) \<in> set rs \<and> r = fst (tick_room now dt rnd k r0 j)"
proof (induction rs arbitrary: i)
  case Nil
  then show ?case by simp
next
  case (Cons a rs)
  obtain k0 r0 where a: "a = (k0, r0)" by (cases a)
  from Cons.prems have "(k, r) = (k0, fst (tick_room now dt rnd k0 r0 i))
     \<or> (k, r) \<in> set (fst (tick_rooms now dt rnd rs (snd (snd (tick_room now dt rnd k0 r0 i)))))"
    by (simp add: a case_prod_beta Let_def)
  then show ?case
  proof
    assume "(k, r) = (k0, fst (tick_room now dt rnd k0 r0 i))"
    then show ?thesis by (auto simp: a)
  next
    assume "(k, r) \<in> set (fst (tick_rooms now dt rnd rs (snd (snd (tick_room now dt rnd k0 r0 i)))))"
    from Cons.IH [OF this] show ?thesis by auto
  qed
qed

lemma tick_rooms_ok:
  "\<forall>(k, r) \<in> set rs. room_ok r \<Longrightarrow> \<forall>(k, r) \<in> set (fst (tick_rooms now dt rnd rs i)). room_ok r"
  by (auto dest!: tick_rooms_member intro: tick_room_ok)

lemma rooms_ok_update:
  "distinct (map fst rs) \<and> (\<forall>(k, r) \<in> set rs. room_ok r) \<Longrightarrow> room_ok r' \<Longrightarrow>
     distinct (map fst (AList.update rid r' rs)) \<and> (\<forall>(k, r) \<in> set (AList.update rid r' rs). room_ok r)"
  by (auto simp: distinct_update dest!: in_set_updateD)

lemma rooms_ok_delete:
  "distinct (map fst rs) \<and> (\<forall>(k, r) \<in> set rs. room_ok r) \<Longrightarrow>
     distinct (map fst (AList.delete rid rs)) \<and> (\<forall>(k, r) \<in> set (AList.delete rid rs). room_ok r)"
  by (auto simp: distinct_delete dest!: in_set_deleteD)

lemma server_ok_lookup: "server_ok s \<Longrightarrow> map_of (rooms s) rid = Some r \<Longrightarrow> room_ok r"
  unfolding server_ok_def by (auto dest: map_of_SomeD)

lemma server_ok_update:
  "server_ok s \<Longrightarrow> room_ok r' \<Longrightarrow> server_ok (s\<lparr>rooms := AList.update rid r' (rooms s)\<rparr>)"
  using rooms_ok_update [of "rooms s" r' rid] by (simp add: server_ok_def)

lemma new_player_fields:
  "p_hp (new_player sid m) = 100" "p_maxHp (new_player sid m) = 100"
  "p_mana (new_player sid m) = 50" "p_maxMana (new_player sid m) = 50"
  "p_casts (new_player sid m) = []" "p_x (new_player sid m) = 0" "p_z (new_player sid m) = 0"
  by (simp_all add: new_player_def)

lemma joinRoom_body_ok:
  assumes "server_ok s"
  shows "server_ok (fst (joinRoom_body sid rnd m s))"
proof (cases "j_roomId m = []")
  case True
  with assms show ?thesis by (simp add: joinRoom_body_def)
next
  case False
  define g where "g = getRoom rnd (j_roomId m) (rooms s)"
  have g1: "distinct (map fst (fst g)) \<and> (\<forall>(k, r) \<in> set (fst g). room_ok r)"
    using assms rooms_ok_update [of "rooms s" "new_room rnd" "j_roomId m"]
    by (auto simp: g_def getRoom_def Let_def server_ok_def new_room_ok split: option.splits)
  have g2: "room_ok (snd g)"
    using assms
    by (auto simp: g_def getRoom_def Let_def new_room_ok split: option.splits
        dest: server_ok_lookup)
  have "room_ok ((snd g)\<lparr>players := AList.update sid (new_player sid m) (players (snd g))\<rparr>)"
    using g2 by (simp add: room_ok_def players_ok_update new_player_fields)
  with g1 have "distinct (map fst (AList.update (j_roomId m)
        ((snd g)\<lparr>players := AList.update sid (new_player sid m) (players (snd g))\<rparr>) (fst g)))
     \<and> (\<forall>(k, r) \<in> set (AList.update (j_roomId m)
        ((snd g)\<lparr>players := AList.update sid (new_player sid m) (players (snd g))\<rparr>) (fst g)). room_ok r)"
    by (rule rooms_ok_update)
  with False show ?thesis
    by (simp add: joinRoom_body_def Let_def case_prod_beta g_def server_ok_def)
qed

lemma input_body_ok:
  assumes "server_ok s"
  shows "server_ok (fst (input_body sid m s))"
proof (cases "\<exists>room p. map_of (rooms s) (i_roomId m) = Some room \<and> map_of (players room) sid = Some p")
  case False
  with assms show ?thesis by (auto simp: input_body_def split: option.splits)
next
  case True
  then obtain room p where r: "map_of (rooms s) (i_roomId m) = Some room"
    and p: "map_of (players room) sid = Some p" by auto
  from assms r have ok: "room_ok room" by (rule server_ok_lookup)
  then have st: "p_hp p = 100 \<and> p_maxHp p = 100 \<and> p_mana p = 50 \<and> p_maxMana p = 50"
    using p by (auto simp: room_ok_def dest: players_ok_lookup)
  have "room_ok (room\<lparr>players := AList.update sid p' (players room)\<rparr>)"
    if "p_hp p' = 100 \<and> p_maxHp p' = 100 \<and> p_mana p' = 50 \<and> p_maxMana p' = 50" for p'
    using ok that by (simp add: room_ok_def players_ok_update)
  with assms r p st show ?thesis
    by (simp add: input_body_def Let_def server_ok_update)
qed

lemma resolve_actor_member:
  "resolve_actor room actorId sid = Some (k, actor) \<Longrightarrow> (k, actor) \<in> set (players room)"
  by (auto simp: resolve_actor_def findPlayerByPlayerId_def find_Some_iff
      split: option.splits dest: map_of_SomeD nth_mem)

lemma action_body_ok:
  assumes "server_ok s"
  shows "server_ok (fst (action_body sid t1 t2 m s))"
proof (cases "map_of (rooms s) (a_roomId m)")
  case None
  with assms show ?thesis by (simp add: action_body_def)
next
  case (Some room)
  with assms have ok: "room_ok room" by (rule server_ok_lookup)
  show ?thesis
  proof (cases "resolve_actor room (a_actorId m) sid")
    case None
    with Some assms show ?thesis by (simp add: action_body_def)
  next
    case (Some ka)
    obtain k actor where ka: "ka = (k, actor)" by (cases ka)
    from Some ka have "(k, actor) \<in> set (players room)" by (simp add: resolve_actor_member)
    with ok have st: "p_hp actor = 100 \<and> p_maxHp actor = 100 \<and> p_mana actor = 50 \<and> p_maxMana actor = 50"
      by (auto simp: room_ok_def players_ok_def)
    have c: "room_ok (room\<lparr>players := AList.update k (actor\<lparr>p_casts := cs\<rparr>) (players room)\<rparr>)" for cs
      using ok st by (simp add: room_ok_def players_ok_update)
    have a: "room_ok (room\<lparr>enemies := AList.update ek (e\<lparr>e_hp := max 0 (e_hp e - 6)\<rparr>) (enemies room)\<rparr>)"
      if "findEnemy room t = Some (ek, e)" for t ek e
    proof -
      from that have "map_of (enemies room) ek = Some e"
        by (auto simp: findEnemy_def split: option.splits)
      with ok show ?thesis by (simp add: room_ok_def enemies_ok_hit)
    qed
    show ?thesis
      using assms \<open>map_of (rooms s) (a_roomId m) = Some room\<close> Some ka c a
      by (auto simp: action_body_def Let_def server_ok_update split: option.splits)
  qed
qed

lemma disconnect_loop_ok:
  assumes "distinct (map fst rs) \<and> (\<forall>(k, r) \<in> set rs. room_ok r)"
    and "\<forall>(k, r) \<in> set entries. room_ok r"
  shows "distinct (map fst (fst (disconnect_loop sid entries rs)))
         \<and> (\<forall>(k, r) \<in> set (fst (disconnect_loop sid entries rs)). room_ok r)"
  using assms(2)
proof (induction entries)
  case Nil
  with assms(1) show ?case by simp
next
  case (Cons a entries)
  obtain rid room where a: "a = (rid, room)" by (cases a)
  show ?case
  proof (cases "map_of (players room) sid")
    case None
    with Cons a show ?thesis by simp
  next
    case (Some p)
    from Cons.prems a have "room_ok room" by simp
    then have "room_ok (room\<lparr>players := AList.delete sid (players room)\<rparr>)"
      by (simp add: room_ok_def players_ok_delete)
    with assms(1) have u: "distinct (map fst (AList.update rid (room\<lparr>players := AList.delete sid (players room)\<rparr>) rs))
       \<and> (\<forall>(k, r) \<in> set (AList.update rid (room\<lparr>players := AList.delete sid (players room)\<rparr>) rs). room_ok r)"
      by (rule rooms_ok_update)
    have d: "distinct (map fst (AList.delete rid rs)) \<and> (\<forall>(k, r) \<in> set (AList.delete rid rs). room_ok r)"
      using assms(1) by (rule rooms_ok_delete)
    show ?thesis
    proof (cases "AList.delete sid (players room) = []")
      case True
      with d Some show ?thesis by (simp add: a Let_def delete_update_same)
    next
      case False
      with u Some show ?thesis by (simp add: a Let_def)
    qed
  qed
qed

lemma on_disconnect_ok: "server_ok s \<Longrightarrow> server_ok (fst (on_disconnect sid s))"
  using disconnect_loop_ok [of "rooms s" "rooms s" sid]
  by (simp add: on_disconnect_def server_ok_def case_prod_beta)

lemma tick_ok: "server_ok s \<Longrightarrow> server_ok (fst (tick now rnd s))"
  using tick_rooms_ok [of "rooms s" now _ rnd 0]
  by (simp add: tick_def Let_def case_prod_beta server_ok_def tick_rooms_keys)

lemma step_ok: "server_ok s \<Longrightarrow> server_ok (fst (step s m))"
  by (cases m) (simp_all add: joinRoom_body_ok input_body_ok action_body_ok on_disconnect_ok tick_ok)

lemma reachable_ok: "reachable s \<Longrightarrow> server_ok s"
  by (induction rule: reachable.induct) (simp_all add: server_ok_def step_ok [unfolded server_ok_def])

subsection \<open>Evaluation of the witness states\<close>

lemma w_actor: "resolve_actor (w_room h) None ''s1'' = Some (''s1'', w_player)"
  by (simp add: resolve_actor_def findPlayerByPlayerId_def w_room_def)

lemma w_player_id: "p_playerId w_player = ''p1''"
  by (simp add: w_player_def new_player_def w_join_def)

lemma w_enemy_fields: "e_enemyId (w_enemy h) = ''e1'' \<and> e_maxHp (w_enemy h) = 50 \<and> e_hp (w_enemy h) = h"
  by (simp add: w_enemy_def new_enemy_def show_nat_Suc_digits)

lemma w_enemy_hp: "(w_enemy h)\<lparr>e_hp := h'\<rparr> = w_enemy h'"
  by (simp add: w_enemy_def)

subsection \<open>The attack action\<close>

text \<open>
  C3, corrected. An attack action (a payload object whose \<open>type\<close> is \<open>attack\<close>). When the
  room does not exist, or no acting player resolves in it (no player of the room has the
  message's \<open>actorId\<close> as player id and the sender has no player there), the handler
  returns before it looks at the target: the server state is unchanged and nothing is
  emitted. When the actor resolves: if the payload's target enemy id names no enemy of
  the room (absent, empty, or not a key of the enemy map), the state is unchanged and
  nothing is emitted; otherwise the enemy's hp becomes \<open>max 0 (hp - 6)\<close>, nothing else in
  the server changes, a \<open>damage\<close> event carrying the new hp is emitted, and it is followed
  by \<open>enemy_death\<close> exactly when the new hp is \<open>\<le> 0\<close>.
\<close>

theorem attack_action:
  assumes "a_type m = ''attack''"
  shows
    "(map_of (rooms s) (a_roomId m) = None \<longrightarrow> on_action sid t1 t2 (Some m) s = Inr (s, []))
     \<and> (\<forall>room. map_of (rooms s) (a_roomId m) = Some room \<longrightarrow>
          (resolve_actor room (a_actorId m) sid = None \<longrightarrow> on_action sid t1 t2 (Some m) s = Inr (s, []))
          \<and> (\<forall>k actor. resolve_actor room (a_actorId m) sid = Some (k, actor) \<longrightarrow>
               (\<not> (\<exists>tid e. pl_targetEnemyId (a_payload m) = Some tid \<and> tid \<noteq> []
                              \<and> map_of (enemies room) tid = Some e)
                  \<longrightarrow> on_action sid t1 t2 (Some m) s = Inr (s, []))
               \<and> (\<forall>tid e. pl_targetEnemyId (a_payload m) = Some tid \<and> tid \<noteq> []
                              \<and> map_of (enemies room) tid = Some e
                  \<longrightarrow> on_action sid t1 t2 (Some m) s =
                       Inr (s\<lparr>rooms := AList.update (a_roomId m)
                                 (room\<lparr>enemies := AList.update tid (e\<lparr>e_hp := max 0 (e_hp e - 6)\<rparr>)
                                                      (enemies room)\<rparr>)
                                 (rooms s)\<rparr>,
                            Event (a_roomId m)
                              (Damage (p_playerId actor) ''enemy'' (e_enemyId e) 6 (max 0 (e_hp e - 6))
                                 (e_maxHp e))
                            # (if max 0 (e_hp e - 6) \<le> 0
                               then [Event (a_roomId m) (Enemy_death (e_enemyId e))] else [])))))"
proof (intro conjI allI impI)
  assume "map_of (rooms s) (a_roomId m) = None"
  then show "on_action sid t1 t2 (Some m) s = Inr (s, [])"
    by (simp add: on_action_def action_body_def)
next
  fix room
  assume "map_of (rooms s) (a_roomId m) = Some room"
    and "resolve_actor room (a_actorId m) sid = None"
  then show "on_action sid t1 t2 (Some m) s = Inr (s, [])"
    by (simp add: on_action_def action_body_def)
next
  fix room k actor
  assume r: "map_of (rooms s) (a_roomId m) = Some room"
    and a: "resolve_actor room (a_actorId m) sid = Some (k, actor)"
    and "\<not> (\<exists>tid e. pl_targetEnemyId (a_payload m) = Some tid \<and> tid \<noteq> []
                              \<and> map_of (enemies room) tid = Some e)"
  then have "(if truthy (pl_targetEnemyId (a_payload m))
              then findEnemy room (pl_targetEnemyId (a_payload m)) else None) = None"
    by (cases "pl_targetEnemyId (a_payload m)") (auto simp: findEnemy_def)
  with assms r a show "on_action sid t1 t2 (Some m) s = Inr (s, [])"
    by (simp add: on_action_def action_body_def)
next
  fix room k actor tid e
  assume r: "map_of (rooms s) (a_roomId m) = Some room"
    and a: "resolve_actor room (a_actorId m) sid = Some (k, actor)"
    and "pl_targetEnemyId (a_payload m) = Some tid \<and> tid \<noteq> [] \<and> map_of (enemies room) tid = Some e"
  then have "(if truthy (pl_targetEnemyId (a_payload m))
              then findEnemy room (pl_targetEnemyId (a_payload m)) else None) = Some (tid, e)"
    by (simp add: findEnemy_def)
  with assms r a show "on_action sid t1 t2 (Some m) s =
                       Inr (s\<lparr>rooms := AList.update (a_roomId m)
                                 (room\<lparr>enemies := AList.update tid (e\<lparr>e_hp := max 0 (e_hp e - 6)\<rparr>)
                                                      (enemies room)\<rparr>)
                                 (rooms s)\<rparr>,
                            Event (a_roomId m)
                              (Damage (p_playerId actor) ''enemy'' (e_enemyId e) 6 (max 0 (e_hp e - 6))
                                 (e_maxHp e))
                            # (if max 0 (e_hp e - 6) \<le> 0
                               then [Event (a_roomId m) (Enemy_death (e_enemyId e))] else []))"
    by (simp add: on_action_def action_body_def emitEvent_def Let_def)
qed

text \<open>
  The scenario of the specification: attacking enemy \<open>e1\<close> with 6 hit points yields
  \<open>damage\<close> with hp 0 followed by \<open>enemy_death\<close>; attacking the dead enemy again yields
  the same two events. An attack at the unknown enemy \<open>e9\<close>, and an attack in the unknown
  room \<open>r2\<close>, change nothing.
\<close>

theorem attack_action_witness:
  "a_type w_attack = ''attack''
   \<and> map_of (rooms (w_server 6)) (a_roomId w_attack) = Some (w_room 6)
   \<and> resolve_actor (w_room 6) (a_actorId w_attack) ''s1'' = Some (''s1'', w_player)
   \<and> on_action ''s1'' 0 0 (Some w_attack) (w_server 6) =
       Inr (w_server 0, [Event ''r1'' (Damage ''p1'' ''enemy'' ''e1'' 6 0 50), Event ''r1'' (Enemy_death ''e1'')])
   \<and> on_action ''s1'' 0 0 (Some w_attack) (w_server 0) =
       Inr (w_server 0, [Event ''r1'' (Damage ''p1'' ''enemy'' ''e1'' 6 0 50), Event ''r1'' (Enemy_death ''e1'')])
   \<and> on_action ''s1'' 0 0 (Some w_attack) (w_server 50) =
       Inr (w_server 44, [Event ''r1'' (Damage ''p1'' ''enemy'' ''e1'' 6 44 50)])
   \<and> on_action ''s1'' 0 0 (Some (w_attack\<lparr>a_payload := \<lparr>pl_spellId = None, pl_targetEnemyId = Some ''e9''\<rparr>\<rparr>))
        (w_server 6) = Inr (w_server 6, [])
   \<and> on_action ''s1'' 0 0 (Some (w_attack\<lparr>a_roomId := ''r2''\<rparr>)) (w_server 6) = Inr (w_server 6, [])"
proof -
  have a: "a_type w_attack = ''attack''" by (simp add: w_attack_def)
  have b: "map_of (rooms (w_server h)) (a_roomId w_attack) = Some (w_room h)" for h
    by (simp add: w_attack_def w_server_def)
  have c: "resolve_actor (w_room h) (a_actorId w_attack) ''s1'' = Some (''s1'', w_player)" for h
    by (simp add: w_attack_def w_actor)
  have d: "pl_targetEnemyId (a_payload w_attack) = Some ''e1'' \<and> ''e1'' \<noteq> []
             \<and> map_of (enemies (w_room h)) ''e1'' = Some (w_enemy h)" for h
    by (simp add: w_attack_def w_room_def)
  have hit: "on_action ''s1'' 0 0 (Some w_attack) (w_server h) =
       Inr ((w_server h)\<lparr>rooms := AList.update (a_roomId w_attack)
                 ((w_room h)\<lparr>enemies := AList.update ''e1'' ((w_enemy h)\<lparr>e_hp := max 0 (e_hp (w_enemy h) - 6)\<rparr>)
                                      (enemies (w_room h))\<rparr>)
                 (rooms (w_server h))\<rparr>,
            Event (a_roomId w_attack)
              (Damage (p_playerId w_player) ''enemy'' (e_enemyId (w_enemy h)) 6 (max 0 (e_hp (w_enemy h) - 6))
                 (e_maxHp (w_enemy h)))
            # (if max 0 (e_hp (w_enemy h) - 6) \<le> 0
               then [Event (a_roomId w_attack) (Enemy_death (e_enemyId (w_enemy h)))] else []))" for h
    using attack_action [OF a, of "w_server h" "''s1''" 0 0] b [of h] c [of h] d [of h] by blast
  have h6: "on_action ''s1'' 0 0 (Some w_attack) (w_server 6) =
       Inr (w_server 0, [Event ''r1'' (Damage ''p1'' ''enemy'' ''e1'' 6 0 50), Event ''r1'' (Enemy_death ''e1'')])"
    unfolding hit [of 6]
    by (simp add: w_enemy_fields w_player_id w_enemy_hp) (simp add: w_server_def w_room_def w_attack_def)
  have h0: "on_action ''s1'' 0 0 (Some w_attack) (w_server 0) =
       Inr (w_server 0, [Event ''r1'' (Damage ''p1'' ''enemy'' ''e1'' 6 0 50), Event ''r1'' (Enemy_death ''e1'')])"
    unfolding hit [of 0]
    by (simp add: w_enemy_fields w_player_id w_enemy_hp) (simp add: w_server_def w_room_def w_attack_def)
  have h50: "on_action ''s1'' 0 0 (Some w_attack) (w_server 50) =
       Inr (w_server 44, [Event ''r1'' (Damage ''p1'' ''enemy'' ''e1'' 6 44 50)])"
    unfolding hit [of 50]
    by (simp add: w_enemy_fields w_player_id w_enemy_hp) (simp add: w_server_def w_room_def w_attack_def)
  let ?m9 = "w_attack\<lparr>a_payload := \<lparr>pl_spellId = None, pl_targetEnemyId = Some ''e9''\<rparr>\<rparr>"
  have a9: "a_type ?m9 = ''attack''" by (simp add: w_attack_def)
  have b9: "map_of (rooms (w_server 6)) (a_roomId ?m9) = Some (w_room 6)"
    by (simp add: w_attack_def w_server_def)
  have c9: "resolve_actor (w_room 6) (a_actorId ?m9) ''s1'' = Some (''s1'', w_player)"
    by (simp add: w_attack_def w_actor)
  have d9: "\<not> (\<exists>tid e. pl_targetEnemyId (a_payload ?m9) = Some tid \<and> tid \<noteq> []
                              \<and> map_of (enemies (w_room 6)) tid = Some e)"
    by (simp add: w_room_def)
  have h9: "on_action ''s1'' 0 0 (Some ?m9) (w_server 6) = Inr (w_server 6, [])"
    using attack_action [OF a9, of "w_server 6" "''s1''" 0 0] b9 c9 d9 by blast
  let ?m2 = "w_attack\<lparr>a_roomId := ''r2''\<rparr>"
  have a2: "a_type ?m2 = ''attack''" by (simp add: w_attack_def)
  have b2: "map_of (rooms (w_server 6)) (a_roomId ?m2) = None"
    by (simp add: w_server_def)
  have h2: "on_action ''s1'' 0 0 (Some ?m2) (w_server 6) = Inr (w_server 6, [])"
    using attack_action [OF a2, of "w_server 6" "''s1''" 0 0] b2 by blast
  show ?thesis
    using a b [of 6] c [of 6] h6 h0 h50 h9 h2 by - (intro conjI; assumption)
qed

text \<open>
  The claim as stated fails for a sender without a resolvable actor: socket \<open>s9\<close> has no
  player in \<open>r1\<close> and names no actor; the target \<open>e1\<close> exists with 6 hit points, yet
  its hp is not reduced and no \<open>damage\<close> event is emitted.
\<close>

theorem attack_unresolved_actor_counterexample:
  "a_type w_attack = ''attack''
   \<and> map_of (rooms (w_server 6)) (a_roomId w_attack) = Some (w_room 6)
   \<and> pl_targetEnemyId (a_payload w_attack) = Some ''e1''
   \<and> map_of (enemies (w_room 6)) ''e1'' = Some (w_enemy 6)
   \<and> e_hp (w_enemy 6) = 6
   \<and> resolve_actor (w_room 6) (a_actorId w_attack) ''s9'' = None
   \<and> on_action ''s9'' 0 0 (Some w_attack) (w_server 6) = Inr (w_server 6, [])"
  by (simp add: w_attack_def w_server_def w_room_def w_enemy_fields on_action_def action_body_def
      resolve_actor_def findPlayerByPlayerId_def)

subsection \<open>The input message\<close>

text \<open>
  C7. An \<open>input\<close> event emitted without a payload, or with \<open>null\<close>, makes the handler
  throw a \<open>TypeError\<close>: the claim's ``no error is raised'' fails there. For every payload
  that destructures, the handler raises no error and emits nothing. It leaves the server
  unchanged when the room does not exist or holds no player of the sender. Otherwise the
  only change is to the sender's player in that room: each of \<open>vx\<close>, \<open>vz\<close>, \<open>rotY\<close> is
  overwritten exactly when the message's field is a number, and keeps its value when the
  field is absent or of another type.
\<close>

theorem input_handler:
  "on_input sid None s = Inl TypeError
   \<and> (\<exists>s'. on_input sid (Some m) s = Inr (s', []))
   \<and> ((\<forall>room. map_of (rooms s) (i_roomId m) = Some room \<longrightarrow> map_of (players room) sid = None)
        \<longrightarrow> on_input sid (Some m) s = Inr (s, []))
   \<and> (\<forall>room p. map_of (rooms s) (i_roomId m) = Some room \<and> map_of (players room) sid = Some p
        \<longrightarrow> on_input sid (Some m) s =
              Inr (s\<lparr>rooms := AList.update (i_roomId m)
                        (room\<lparr>players := AList.update sid
                           (p\<lparr>p_vx := (case i_vx m of JNum r \<Rightarrow> r | _ \<Rightarrow> p_vx p),
                              p_vz := (case i_vz m of JNum r \<Rightarrow> r | _ \<Rightarrow> p_vz p),
                              p_rotY := (case i_rotY m of JNum r \<Rightarrow> r | _ \<Rightarrow> p_rotY p)\<rparr>)
                           (players room)\<rparr>)
                        (rooms s)\<rparr>, []))"
proof (intro conjI allI impI)
  show "on_input sid None s = Inl TypeError"
    by (simp add: on_input_def)
next
  have "snd (input_body sid m s) = []"
    by (simp add: input_body_def Let_def split: option.splits)
  then have "on_input sid (Some m) s = Inr (fst (input_body sid m s), [])"
    by (simp add: on_input_def prod_eq_iff)
  then show "\<exists>s'. on_input sid (Some m) s = Inr (s', [])" ..
next
  assume "\<forall>room. map_of (rooms s) (i_roomId m) = Some room \<longrightarrow> map_of (players room) sid = None"
  then show "on_input sid (Some m) s = Inr (s, [])"
    by (simp add: on_input_def input_body_def split: option.splits)
next
  fix room p
  assume h: "map_of (rooms s) (i_roomId m) = Some room \<and> map_of (players room) sid = Some p"
  have f: "(if is_number v then q\<lparr>p_vx := num_of v\<rparr> else q) = q\<lparr>p_vx := (case v of JNum r \<Rightarrow> r | _ \<Rightarrow> p_vx q)\<rparr>"
    "(if is_number v then q\<lparr>p_vz := num_of v\<rparr> else q) = q\<lparr>p_vz := (case v of JNum r \<Rightarrow> r | _ \<Rightarrow> p_vz q)\<rparr>"
    "(if is_number v then q\<lparr>p_rotY := num_of v\<rparr> else q) = q\<lparr>p_rotY := (case v of JNum r \<Rightarrow> r | _ \<Rightarrow> p_rotY q)\<rparr>"
    for v and q :: player
    by (cases v; simp)+
  from h show "on_input sid (Some m) s =
              Inr (s\<lparr>rooms := AList.update (i_roomId m)
                        (room\<lparr>players := AList.update sid
                           (p\<lparr>p_vx := (case i_vx m of JNum r \<Rightarrow> r | _ \<Rightarrow> p_vx p),
                              p_vz := (case i_vz m of JNum r \<Rightarrow> r | _ \<Rightarrow> p_vz p),
                              p_rotY := (case i_rotY m of JNum r \<Rightarrow> r | _ \<Rightarrow> p_rotY p)\<rparr>)
                           (players room)\<rparr>)
                        (rooms s)\<rparr>, [])"
    by (simp add: on_input_def input_body_def Let_def f cong: jsval.case_cong)
qed

text \<open>
  An event without a payload throws. A message with a numeric \<open>vx\<close>, a string \<open>vz\<close> and
  no \<open>rotY\<close>: only \<open>vx\<close> changes. The same message from a socket without a player, or
  for a room that does not exist, changes nothing.
\<close>

theorem input_handler_witness:
  "map_of (rooms (w_server 50)) (i_roomId w_input) = Some (w_room 50)
   \<and> map_of (players (w_room 50)) ''s1'' = Some w_player
   \<and> on_input ''s1'' None (w_server 50) = Inl TypeError
   \<and> on_input ''s1'' (Some w_input) (w_server 50) =
       Inr ((w_server 50)\<lparr>rooms := [(''r1'', (w_room 50)\<lparr>players := [(''s1'', w_player\<lparr>p_vx := 1\<rparr>)]\<rparr>)]\<rparr>, [])
   \<and> on_input ''s2'' (Some w_input) (w_server 50) = Inr (w_server 50, [])
   \<and> on_input ''s1'' (Some (w_input\<lparr>i_roomId := ''r2''\<rparr>)) (w_server 50) = Inr (w_server 50, [])"
proof -
  have a: "map_of (rooms (w_server 50)) (i_roomId w_input) = Some (w_room 50)"
    by (simp add: w_server_def w_input_def)
  have b: "map_of (players (w_room 50)) ''s1'' = Some w_player"
    by (simp add: w_room_def)
  have c: "\<forall>room. map_of (rooms (w_server 50)) (i_roomId w_input) = Some room
             \<longrightarrow> map_of (players room) ''s2'' = None"
    by (simp add: w_server_def w_input_def w_room_def)
  have d: "\<forall>room. map_of (rooms (w_server 50)) (i_roomId (w_input\<lparr>i_roomId := ''r2''\<rparr>)) = Some room
             \<longrightarrow> map_of (players room) ''s1'' = None"
    by (simp add: w_server_def)
  have e: "p_vz w_player = 0 \<and> p_rotY w_player = 0"
    by (simp add: w_player_def new_player_def)
  have t: "on_input ''s1'' None (w_server 50) = Inl TypeError"
    using input_handler [of "''s1''" "w_server 50" w_input] by blast
  have "on_input ''s1'' (Some w_input) (w_server 50) =
       Inr ((w_server 50)\<lparr>rooms := [(''r1'', (w_room 50)\<lparr>players := [(''s1'', w_player\<lparr>p_vx := 1\<rparr>)]\<rparr>)]\<rparr>, [])"
    using input_handler [of "''s1''" "w_server 50" w_input] a b e
    by simp (simp add: w_server_def w_room_def w_input_def)
  moreover have "on_input ''s2'' (Some w_input) (w_server 50) = Inr (w_server 50, [])"
    using input_handler [of "''s2''" "w_server 50" w_input] c by blast
  moreover have "on_input ''s1'' (Some (w_input\<lparr>i_roomId := ''r2''\<rparr>)) (w_server 50) = Inr (w_server 50, [])"
    using input_handler [of "''s1''" "w_server 50" "w_input\<lparr>i_roomId := ''r2''\<rparr>"] d by blast
  ultimately show ?thesis using a b t by simp
qed

subsection \<open>Invariants of the reachable states\<close>

lemma w_joined_rooms: "rooms w_joined = [(''r1'', w_joined_room)]"
  by (simp add: w_joined_def w_start_def joinRoom_body_def w_join_def getRoom_def Let_def
      w_joined_room_def w_player_def new_room_def)

lemma w_joined_reachable: "reachable w_joined"
  unfolding w_joined_def w_start_def by (rule reachable.after [OF reachable.start])

text \<open>
  C9. In every reachable state, every player of every room has \<open>hp = maxHp = 100\<close> and
  \<open>mana = maxMana = 50\<close>, the values \<open>joinRoom\<close> gives them; and whatever unit of work
  comes next (any inbound message, any tick), the player found under the same room and
  socket afterwards has the same four values.
\<close>

theorem player_stats_constant:
  assumes "reachable s"
    and "map_of (rooms s) rid = Some room" and "map_of (players room) sid = Some p"
  shows "p_hp p = 100 \<and> p_maxHp p = 100 \<and> p_mana p = 50 \<and> p_maxMana p = 50
         \<and> (\<forall>m room' p'. map_of (rooms (fst (step s m))) rid = Some room'
               \<and> map_of (players room') sid = Some p'
               \<longrightarrow> p_hp p' = p_hp p \<and> p_maxHp p' = p_maxHp p
                   \<and> p_mana p' = p_mana p \<and> p_maxMana p' = p_maxMana p)"
proof -
  have st: "p_hp q = 100 \<and> p_maxHp q = 100 \<and> p_mana q = 50 \<and> p_maxMana q = 50"
    if "reachable t" and "map_of (rooms t) rid = Some r" and "map_of (players r) sid = Some q"
    for t r q
  proof -
    from that(1) have "server_ok t" by (rule reachable_ok)
    then have "room_ok r" using that(2) by (rule server_ok_lookup)
    then have "players_ok (players r)" by (simp add: room_ok_def)
    then show ?thesis using that(3) by (rule players_ok_lookup)
  qed
  have "reachable (fst (step s m))" for m
    using assms(1) by (rule reachable.after)
  with st [OF assms] st show ?thesis
    by (metis (no_types, lifting))
qed

text \<open>
  The state after the first \<open>joinRoom\<close> and its player, and the same player after an
  input message.
\<close>

lemma w_moving_rooms:
  "rooms w_moving =
     [(''r1'', w_joined_room\<lparr>players := [(''s1'', w_player\<lparr>p_vx := 1, p_vz := 0\<rparr>)]\<rparr>)]"
  by (simp add: w_moving_def input_body_def w_joined_rooms w_input_x_def w_joined_room_def Let_def)

theorem player_stats_constant_witness:
  "reachable w_joined \<and> map_of (rooms w_joined) ''r1'' = Some w_joined_room
   \<and> map_of (players w_joined_room) ''s1'' = Some w_player
   \<and> p_hp w_player = 100 \<and> p_maxHp w_player = 100 \<and> p_mana w_player = 50 \<and> p_maxMana w_player = 50
   \<and> map_of (rooms (fst (step w_joined (Input ''s1'' w_input_x)))) ''r1''
       = Some (w_joined_room\<lparr>players := [(''s1'', w_player\<lparr>p_vx := 1, p_vz := 0\<rparr>)]\<rparr>)
   \<and> p_hp (w_player\<lparr>p_vx := 1, p_vz := 0\<rparr>) = p_hp w_player
   \<and> p_maxHp (w_player\<lparr>p_vx := 1, p_vz := 0\<rparr>) = p_maxHp w_player
   \<and> p_mana (w_player\<lparr>p_vx := 1, p_vz := 0\<rparr>) = p_mana w_player
   \<and> p_maxMana (w_player\<lparr>p_vx := 1, p_vz := 0\<rparr>) = p_maxMana w_player"
proof -
  have a: "map_of (rooms w_joined) ''r1'' = Some w_joined_room"
    by (simp add: w_joined_rooms)
  have b: "map_of (players w_joined_room) ''s1'' = Some w_player"
    by (simp add: w_joined_room_def)
  have c: "map_of (rooms (fst (step w_joined (Input ''s1'' w_input_x)))) ''r1''
       = Some (w_joined_room\<lparr>players := [(''s1'', w_player\<lparr>p_vx := 1, p_vz := 0\<rparr>)]\<rparr>)"
    using w_moving_rooms by (simp add: w_moving_def)
  have d: "map_of (players (w_joined_room\<lparr>players := [(''s1'', w_player\<lparr>p_vx := 1, p_vz := 0\<rparr>)]\<rparr>)) ''s1''
       = Some (w_player\<lparr>p_vx := 1, p_vz := 0\<rparr>)"
    by simp
  note t = player_stats_constant [OF w_joined_reachable a b]
  have u: "p_hp (w_player\<lparr>p_vx := 1, p_vz := 0\<rparr>) = p_hp w_player
         \<and> p_maxHp (w_player\<lparr>p_vx := 1, p_vz := 0\<rparr>) = p_maxHp w_player
         \<and> p_mana (w_player\<lparr>p_vx := 1, p_vz := 0\<rparr>) = p_mana w_player
         \<and> p_maxMana (w_player\<lparr>p_vx := 1, p_vz := 0\<rparr>) = p_maxMana w_player"
    using t c d by blast
  have v: "p_hp w_player = 100 \<and> p_maxHp w_player = 100 \<and> p_mana w_player = 50 \<and> p_maxMana w_player = 50"
    using t by blast
  show ?thesis
    using w_joined_reachable a b v c u by - (intro conjI; (assumption | elim conjE)+)
qed

text \<open>
  C4. In every reachable state, the enemy map of every room has exactly the six keys
  \<open>e1\<close> \<dots> \<open>e6\<close> it was seeded with (\<open>enemyCount\<close> entries), every enemy has
  \<open>0 \<le> hp \<le> maxHp\<close>, a new room's enemies have \<open>hp = maxHp = 50\<close>, and no unit of
  work changes the key list of a room's enemy map.
\<close>

theorem enemies_invariant:
  assumes "reachable s" and "map_of (rooms s) rid = Some room"
  shows "map fst (enemies room) = [''e1'', ''e2'', ''e3'', ''e4'', ''e5'', ''e6'']
         \<and> length (enemies room) = enemyCount
         \<and> (\<forall>(k, e) \<in> set (enemies room). 0 \<le> e_hp e \<and> e_hp e \<le> e_maxHp e)
         \<and> (\<forall>rnd. \<forall>(k, e) \<in> set (enemies (new_room rnd)). e_hp e = 50 \<and> e_maxHp e = 50)
         \<and> (\<forall>m room'. map_of (rooms (fst (step s m))) rid = Some room'
               \<longrightarrow> map fst (enemies room') = map fst (enemies room))"
proof -
  have ok: "map fst (enemies r) = enemy_ids
         \<and> (\<forall>(k, e) \<in> set (enemies r). 0 \<le> e_hp e \<and> e_hp e \<le> e_maxHp e)"
    if "reachable t" and "map_of (rooms t) rid = Some r" for t r
  proof -
    from that(1) have "server_ok t" by (rule reachable_ok)
    then have "room_ok r" using that(2) by (rule server_ok_lookup)
    then show ?thesis by (auto simp: room_ok_def enemies_ok_def)
  qed
  have n: "\<forall>(k, e) \<in> set (enemies (new_room rnd)). e_hp e = 50 \<and> e_maxHp e = 50" for rnd
    by (simp add: new_room_def seeded_enemies new_enemy_def)
  have l: "length (enemies room) = enemyCount" if "map fst (enemies room) = enemy_ids"
  proof -
    have "length (enemies room) = length (map fst (enemies room))" by simp
    also have "\<dots> = enemyCount" by (simp add: that enemy_ids_def enemyCount_def)
    finally show ?thesis .
  qed
  have "reachable (fst (step s m))" for m
    using assms(1) by (rule reachable.after)
  with ok [OF assms] ok n l show ?thesis
    unfolding enemy_ids_def by (metis (no_types, lifting))
qed


text \<open>The room created by the first \<open>joinRoom\<close>.\<close>

theorem enemies_invariant_witness:
  "reachable w_joined \<and> map_of (rooms w_joined) ''r1'' = Some w_joined_room
   \<and> map fst (enemies w_joined_room) = [''e1'', ''e2'', ''e3'', ''e4'', ''e5'', ''e6'']
   \<and> length (enemies w_joined_room) = enemyCount
   \<and> list_all (\<lambda>(k, e). 0 \<le> e_hp e \<and> e_hp e \<le> e_maxHp e) (enemies w_joined_room)
   \<and> list_all (\<lambda>(k, e). e_hp e = 50 \<and> e_maxHp e = 50) (enemies (new_room w_rnd))
   \<and> map_of (rooms (fst (step w_joined (Input ''s1'' w_input_x)))) ''r1''
       = Some (w_joined_room\<lparr>players := [(''s1'', w_player\<lparr>p_vx := 1, p_vz := 0\<rparr>)]\<rparr>)
   \<and> map fst (enemies (w_joined_room\<lparr>players := [(''s1'', w_player\<lparr>p_vx := 1, p_vz := 0\<rparr>)]\<rparr>))
       = map fst (enemies w_joined_room)"
proof -
  have a: "map_of (rooms w_joined) ''r1'' = Some w_joined_room"
    by (simp add: w_joined_rooms)
  have c: "map_of (rooms (fst (step w_joined (Input ''s1'' w_input_x)))) ''r1''
       = Some (w_joined_room\<lparr>players := [(''s1'', w_player\<lparr>p_vx := 1, p_vz := 0\<rparr>)]\<rparr>)"
    using w_moving_rooms by (simp add: w_moving_def)
  note t = enemies_invariant [OF w_joined_reachable a]
  have n: "list_all (\<lambda>(k, e). e_hp e = 50 \<and> e_maxHp e = 50) (enemies (new_room w_rnd))"
    using t by (simp add: list_all_iff)
  have k: "map fst (enemies (w_joined_room\<lparr>players := [(''s1'', w_player\<lparr>p_vx := 1, p_vz := 0\<rparr>)]\<rparr>))
       = map fst (enemies w_joined_room)"
    using t c by blast
  from t w_joined_reachable a n c k
  show ?thesis by (simp add: list_all_iff)
qed

text \<open>
  C5. In every reachable state a room holds at most \<open>maxProjectilesPerRoom + 1\<close>
  projectiles, under distinct non-empty ids. On such a room \<open>spawnProjectile\<close> keeps that
  bound; when the count already exceeds \<open>maxProjectilesPerRoom\<close> it removes exactly the
  first entry in insertion order and then inserts the new projectile, and otherwise it
  inserts without evicting.
\<close>

theorem projectile_capacity:
  "(reachable s \<and> map_of (rooms s) rid = Some room
      \<longrightarrow> length (projectiles room) \<le> maxProjectilesPerRoom + 1
          \<and> distinct (map fst (projectiles room))
          \<and> (\<forall>(k, pr) \<in> set (projectiles room). k \<noteq> []))
   \<and> (length (projectiles r) \<le> maxProjectilesPerRoom + 1
        \<and> distinct (map fst (projectiles r))
        \<and> (\<forall>(k, pr) \<in> set (projectiles r). k \<noteq> [])
      \<longrightarrow> length (projectiles (spawnProjectile r proj)) \<le> maxProjectilesPerRoom + 1
          \<and> (maxProjectilesPerRoom < length (projectiles r)
               \<longrightarrow> projectiles (spawnProjectile r proj)
                     = AList.update (pr_projId proj) proj (tl (projectiles r)))
          \<and> (length (projectiles r) \<le> maxProjectilesPerRoom
               \<longrightarrow> projectiles (spawnProjectile r proj)
                     = AList.update (pr_projId proj) proj (projectiles r)))"
proof (intro conjI impI)
  assume h: "reachable s \<and> map_of (rooms s) rid = Some room"
  then have "server_ok s" by (simp add: reachable_ok)
  with h have "room_ok room" by (auto dest: server_ok_lookup)
  then have ok: "projectiles_ok (projectiles room)" by (simp add: room_ok_def)
  from ok show "length (projectiles room) \<le> maxProjectilesPerRoom + 1"
    by (simp add: projectiles_ok_def)
  from ok show "distinct (map fst (projectiles room))"
    by (simp add: projectiles_ok_def)
  from ok show "\<forall>(k, pr) \<in> set (projectiles room). k \<noteq> []"
    by (auto simp: projectiles_ok_def)
next
  assume h: "length (projectiles r) \<le> maxProjectilesPerRoom + 1
        \<and> distinct (map fst (projectiles r))
        \<and> (\<forall>(k, pr) \<in> set (projectiles r). k \<noteq> [])"
  have full: "projectiles (spawnProjectile r proj) = AList.update (pr_projId proj) proj (tl (projectiles r))"
    if "maxProjectilesPerRoom < length (projectiles r)"
  proof -
    from that obtain k old rest where c: "projectiles r = (k, old) # rest"
      by (cases "projectiles r") auto
    with h have "k \<noteq> []" and "k \<notin> fst ` set rest" by auto
    with that c show ?thesis by (simp add: spawnProjectile_def)
  qed
  have room: "projectiles (spawnProjectile r proj) = AList.update (pr_projId proj) proj (projectiles r)"
    if "length (projectiles r) \<le> maxProjectilesPerRoom"
    using that by (simp add: spawnProjectile_def)
  show "maxProjectilesPerRoom < length (projectiles r)
      \<Longrightarrow> projectiles (spawnProjectile r proj) = AList.update (pr_projId proj) proj (tl (projectiles r))"
    by (rule full)
  show "length (projectiles r) \<le> maxProjectilesPerRoom
      \<Longrightarrow> projectiles (spawnProjectile r proj) = AList.update (pr_projId proj) proj (projectiles r)"
    by (rule room)
  show "length (projectiles (spawnProjectile r proj)) \<le> maxProjectilesPerRoom + 1"
  proof (cases "maxProjectilesPerRoom < length (projectiles r)")
    case True
    have "length (AList.update (pr_projId proj) proj (tl (projectiles r))) \<le> Suc (length (tl (projectiles r)))"
      by (rule length_update_le)
    with True h show ?thesis by (auto simp: full)
  next
    case False
    have "length (AList.update (pr_projId proj) proj (projectiles r)) \<le> Suc (length (projectiles r))"
      by (rule length_update_le)
    with False show ?thesis by (simp add: room)
  qed
qed

text \<open>
  A room with no projectile (after the first \<open>joinRoom\<close>), and a room with 201: the spawn
  drops the head of the list and appends the new projectile.
\<close>

lemma w_full_projectiles:
  "length (projectiles w_full) = 201"
  "distinct (map fst (projectiles w_full))"
  "\<forall>(k, pr) \<in> set (projectiles w_full). k \<noteq> []"
  by (auto simp: w_full_def distinct_map o_def inj_on_def)

theorem projectile_capacity_witness:
  "reachable w_joined \<and> map_of (rooms w_joined) ''r1'' = Some w_joined_room
   \<and> length (projectiles w_joined_room) = 0
   \<and> length (projectiles w_full) = 201
   \<and> distinct (map fst (projectiles w_full))
   \<and> list_all (\<lambda>(k, pr). k \<noteq> []) (projectiles w_full)
   \<and> maxProjectilesPerRoom < length (projectiles w_full)
   \<and> projectiles (spawnProjectile w_full (w_proj ''new''))
       = AList.update ''new'' (w_proj ''new'') (tl (projectiles w_full))
   \<and> length (projectiles (spawnProjectile w_full (w_proj ''new''))) \<le> 201"
proof -
  have a: "map_of (rooms w_joined) ''r1'' = Some w_joined_room"
    by (simp add: w_joined_rooms)
  have b: "length (projectiles w_joined_room) = 0"
    by (simp add: w_joined_room_def new_room_def)
  have c: "pr_projId (w_proj ''new'') = ''new''" by (simp add: w_proj_def)
  have d: "maxProjectilesPerRoom < length (projectiles w_full)"
    by (simp add: w_full_projectiles maxProjectilesPerRoom_def)
  note t = projectile_capacity [of w_joined "''r1''" w_joined_room w_full "w_proj ''new''"]
  have pre: "length (projectiles w_full) \<le> maxProjectilesPerRoom + 1
        \<and> distinct (map fst (projectiles w_full))
        \<and> (\<forall>(k, pr) \<in> set (projectiles w_full). k \<noteq> [])"
    using w_full_projectiles by (simp add: maxProjectilesPerRoom_def)
  note u = t [THEN conjunct2, THEN mp, OF pre]
  from u [THEN conjunct2, THEN conjunct1, THEN mp, OF d] c
  have e: "projectiles (spawnProjectile w_full (w_proj ''new''))
             = AList.update ''new'' (w_proj ''new'') (tl (projectiles w_full))"
    by simp
  from u [THEN conjunct1]
  have l: "length (projectiles (spawnProjectile w_full (w_proj ''new''))) \<le> 201"
    by (simp add: maxProjectilesPerRoom_def)
  have f: "list_all (\<lambda>(k, pr). k \<noteq> []) (projectiles w_full)"
    using w_full_projectiles(3) by (simp add: list_all_iff)
  show ?thesis
    using w_joined_reachable a b w_full_projectiles(1,2) f d e l
    by - (intro conjI; assumption)
qed

subsection \<open>The players after a tick\<close>

lemma players_casts_loop_players:
  assumes "distinct (map fst (pre @ ps))" and "players room = pre @ ps"
  shows "players (fst (players_casts_loop now rid rnd ps room i)) =
           pre @ map (\<lambda>(k, p). (k, p\<lparr>p_casts := filter (\<lambda>c. now < c_finishAt c) (p_casts p)\<rparr>)) ps"
  using assms
proof (induction ps arbitrary: pre room i)
  case Nil
  then show ?case by simp
next
  case (Cons a ps)
  obtain k p where a: "a = (k, p)" by (cases a)
  show ?case
  proof (cases "p_casts p = []")
    case True
    from Cons.prems have "distinct (map fst ((pre @ [(k, p)]) @ ps))"
      and "players room = (pre @ [(k, p)]) @ ps" by (simp_all add: a)
    from Cons.IH [OF this] True show ?thesis by (simp add: a)
  next
    case False
    define r where "r = casts_loop now rid rnd p (p_casts p) room i"
    define p' where "p' = p\<lparr>p_casts := filter (\<lambda>c. now < c_finishAt c) (p_casts p)\<rparr>"
    define room2 where
      "room2 = (fst (snd r))\<lparr>players := AList.update k p' (players (fst (snd r)))\<rparr>"
    have "players (fst (snd r)) = pre @ (k, p) # ps"
      using Cons.prems(2) by (simp add: r_def casts_loop_players a)
    moreover from Cons.prems(1) have "k \<notin> fst ` set pre" by (auto simp: a)
    ultimately have "players room2 = (pre @ [(k, p')]) @ ps"
      by (simp add: room2_def update_in_middle)
    moreover from Cons.prems(1) have "distinct (map fst ((pre @ [(k, p')]) @ ps))"
      by (simp add: a)
    ultimately have "players (fst (players_casts_loop now rid rnd ps room2 (snd (snd (snd r))))) =
        (pre @ [(k, p')])
        @ map (\<lambda>(k, p). (k, p\<lparr>p_casts := filter (\<lambda>c. now < c_finishAt c) (p_casts p)\<rparr>)) ps"
      by (intro Cons.IH)
    with False show ?thesis
      by (simp add: a case_prod_beta Let_def r_def room2_def p'_def casts_loop_remaining)
  qed
qed

lemma tick_room_players:
  assumes "distinct (map fst (players room))"
  shows "players (fst (tick_room now dt rnd rid room i)) =
           map (\<lambda>(k, p). (k, (move_player dt p)\<lparr>p_casts := filter (\<lambda>c. now < c_finishAt c) (p_casts p)\<rparr>))
             (players room)"
proof -
  define room1 where "room1 = room\<lparr>players := map (\<lambda>(k, p). (k, move_player dt p)) (players room)\<rparr>"
  define r2 where "r2 = tick_enemies now dt rnd room1 (enemies room1) i"
  define room2 where "room2 = room1\<lparr>enemies := fst r2\<rparr>"
  define r3 where "r3 = players_casts_loop now rid rnd (players room2) room2 (snd r2)"
  have e: "fst \<circ> (\<lambda>(k, p). (k, move_player dt p)) = fst"
    by (auto simp: fun_eq_iff)
  have "distinct (map fst ([] @ players room2))"
    using assms by (simp add: room2_def room1_def e)
  moreover have "players room2 = [] @ players room2" by simp
  ultimately have "players (fst r3) =
      [] @ map (\<lambda>(k, p). (k, p\<lparr>p_casts := filter (\<lambda>c. now < c_finishAt c) (p_casts p)\<rparr>)) (players room2)"
    unfolding r3_def by (rule players_casts_loop_players)
  then have "players (fst r3) =
      map (\<lambda>(k, p). (k, (move_player dt p)\<lparr>p_casts := filter (\<lambda>c. now < c_finishAt c) (p_casts p)\<rparr>))
        (players room)"
    by (simp add: room2_def room1_def case_prod_beta move_player_fields o_def)
  then show ?thesis
    by (simp add: tick_room_def Let_def case_prod_beta r3_def room2_def r2_def room1_def
        projectiles_loop_players)
qed

lemma map_of_mapped_values:
  "map_of (map (\<lambda>(k, v). (k, f v)) al) k = map_option f (map_of al k)"
  by (induction al) auto

lemma tick_rooms_lookup_Some:
  "map_of rs k = Some r0 \<Longrightarrow>
     \<exists>j. map_of (fst (tick_rooms now dt rnd rs i)) k = Some (fst (tick_room now dt rnd k r0 j))"
proof (induction rs arbitrary: i)
  case Nil
  then show ?case by simp
next
  case (Cons a rs)
  obtain k0 r where a: "a = (k0, r)" by (cases a)
  show ?case
  proof (cases "k0 = k")
    case True
    with Cons.prems a show ?thesis by (auto simp: case_prod_beta Let_def)
  next
    case False
    with Cons.prems a have "map_of rs k = Some r0" by simp
    from Cons.IH [OF this] False show ?thesis
      by (simp add: a case_prod_beta Let_def)
  qed
qed

lemma tick_rooms_of:
  "rooms (fst (tick now rnd s)) = fst (tick_rooms now (tick_dt now s) rnd (rooms s) 0)"
  "lastTick (fst (tick now rnd s)) = now"
  by (simp_all add: tick_def Let_def case_prod_beta)

lemma tick_player:
  assumes "server_ok s" and "lookup_player s rid sid = Some p"
  shows "lookup_player (fst (tick now rnd s)) rid sid =
           Some ((move_player (tick_dt now s) p)
                   \<lparr>p_casts := filter (\<lambda>c. now < c_finishAt c) (p_casts p)\<rparr>)"
proof -
  from assms(2) obtain room where r: "map_of (rooms s) rid = Some room"
    and p: "map_of (players room) sid = Some p"
    by (auto simp: lookup_player_def split: option.splits)
  from assms(1) r have "room_ok room" by (rule server_ok_lookup)
  then have d: "distinct (map fst (players room))" by (simp add: room_ok_def players_ok_def)
  from tick_rooms_lookup_Some [OF r, of now "tick_dt now s" rnd 0] obtain j where
    "map_of (fst (tick_rooms now (tick_dt now s) rnd (rooms s) 0)) rid
       = Some (fst (tick_room now (tick_dt now s) rnd rid room j))" ..
  then show ?thesis
    using p
    by (simp add: lookup_player_def tick_rooms_of tick_room_players [OF d] map_of_mapped_values)
qed

subsection \<open>Player movement\<close>

lemma sqrt_25: "sqrt 25 = 5"
  by (rule real_sqrt_unique) simp_all

lemma len_3_4: "len 3 4 = Finite 5"
  by (simp add: len_def overflow_bound_def sqrt_25)












subsection \<open>Who removes a player\<close>

lemma disconnect_loop_keeps:
  assumes "distinct (map fst rs)" and "set entries \<subseteq> set rs" and "sid' \<noteq> sid"
    and "map_of rs rid = Some room" and "map_of (players room) sid = Some p"
  shows "\<exists>room'. map_of (fst (disconnect_loop sid' entries rs)) rid = Some room'
           \<and> map_of (players room') sid = Some p"
  using assms(2)
proof (induction entries)
  case Nil
  with assms show ?case by simp
next
  case (Cons a entries)
  obtain rid0 room0 where a: "a = (rid0, room0)" by (cases a)
  show ?case
  proof (cases "map_of (players room0) sid'")
    case None
    with Cons a show ?thesis by simp
  next
    case (Some p0)
    define room0' where "room0' = room0\<lparr>players := AList.delete sid' (players room0)\<rparr>"
    show ?thesis
    proof (cases "rid0 = rid")
      case True
      from Cons.prems a have "(rid0, room0) \<in> set rs" by simp
      with assms(1) have "map_of rs rid0 = Some room0" by (rule map_of_is_SomeI)
      with True assms(4) have "room0 = room" by simp
      with assms(3,5) have k: "map_of (players room0') sid = Some p"
        by (simp add: room0'_def)
      then have "players room0' \<noteq> []" by auto
      with k True Some show ?thesis
        by (auto simp: a Let_def room0'_def [symmetric] update_conv')
    next
      case False
      with assms(4,5) Some show ?thesis
        by (auto simp: a Let_def update_conv' delete_conv')
    qed
  qed
qed

lemma step_keeps_player:
  assumes "server_ok s" and "lookup_player s rid sid \<noteq> None" and "m \<noteq> Disconnect sid"
  shows "lookup_player (fst (step s m)) rid sid \<noteq> None"
proof -
  from assms(2) obtain room p where r: "map_of (rooms s) rid = Some room"
    and p: "map_of (players room) sid = Some p"
    by (auto simp: lookup_player_def split: option.splits)
  show ?thesis
  proof (cases m)
    case (JoinRoom sid' rnd jm)
    with r p show ?thesis
      by (auto simp: lookup_player_def joinRoom_body_def getRoom_def Let_def update_conv'
          split: option.splits)
  next
    case (Input sid' im)
    with r p show ?thesis
      by (auto simp: lookup_player_def input_body_def Let_def update_conv' split: option.splits)
  next
    case (Action sid' t1 t2 am)
    with r p show ?thesis
      by (auto simp: lookup_player_def action_body_def Let_def update_conv' split: option.splits)
  next
    case (Disconnect sid')
    with assms(3) have ne: "sid' \<noteq> sid" by simp
    from assms(1) have "distinct (map fst (rooms s))" by (simp add: server_ok_def)
    from disconnect_loop_keeps [OF this _ ne r p, of "rooms s"] Disconnect show ?thesis
      by (auto simp: lookup_player_def on_disconnect_def case_prod_beta)
  next
    case (Tick now rnd)
    from assms(2) obtain q where "lookup_player s rid sid = Some q" by auto
    from tick_player [OF assms(1) this] Tick show ?thesis by simp
  qed
qed

lemma run_fst_Cons: "fst (run s (m # ms)) = fst (run (fst (step s m)) ms)"
  by (simp add: case_prod_beta)

lemma run_keeps_player:
  assumes "server_ok s" and "lookup_player s rid sid \<noteq> None" and "Disconnect sid \<notin> set ms"
  shows "lookup_player (fst (run s ms)) rid sid \<noteq> None"
  using assms
proof (induction ms arbitrary: s)
  case Nil
  then show ?case by simp
next
  case (Cons m ms)
  from Cons.prems have "server_ok (fst (step s m))" by (simp add: step_ok)
  moreover from Cons.prems have "lookup_player (fst (step s m)) rid sid \<noteq> None"
    by (intro step_keeps_player) auto
  moreover from Cons.prems have "Disconnect sid \<notin> set ms" by simp
  ultimately have "lookup_player (fst (run (fst (step s m)) ms)) rid sid \<noteq> None"
    by (rule Cons.IH)
  then show ?case unfolding run_fst_Cons .
qed

subsection \<open>Disconnect\<close>

lemma disconnect_loop_first:
  assumes "\<forall>(k, r) \<in> set pre. map_of (players r) sid = None"
    and "map_of (players room) sid = Some p"
  shows "disconnect_loop sid (pre @ (rid, room) # post) rs =
           (let room' = room\<lparr>players := AList.delete sid (players room)\<rparr>;
                rs1 = AList.update rid room' rs
            in (if players room' = [] then AList.delete rid rs1 else rs1,
                [Event rid (Player_left (p_playerId p) (p_name p))]))"
  using assms by (induction pre) (auto simp: Let_def emitEvent_def)

text \<open>
  C10. When the first room of the registry (in iteration order) that holds a player of
  the disconnecting socket is \<open>rid\<close>, the handler removes the socket's player from
  \<open>rid\<close> only, deletes \<open>rid\<close> if it is now empty, and emits one \<open>player_left\<close> for it.
  Every later room is left as it was; a player of the socket in a later room is still
  there, and stays there through any further units of work that contain no second
  disconnect of that socket.
\<close>

theorem disconnect_first_room_only:
  assumes "reachable s"
    and "rooms s = pre @ (rid, room) # post"
    and "\<forall>(k, r) \<in> set pre. map_of (players r) sid = None"
    and "map_of (players room) sid = Some p"
  shows "on_disconnect sid s =
           (s\<lparr>rooms := pre
                 @ (if AList.delete sid (players room) = [] then []
                    else [(rid, room\<lparr>players := AList.delete sid (players room)\<rparr>)])
                 @ post\<rparr>,
            [Event rid (Player_left (p_playerId p) (p_name p))])
         \<and> (\<forall>rid2 room2 ms. (rid2, room2) \<in> set post \<and> map_of (players room2) sid \<noteq> None
                \<and> Disconnect sid \<notin> set ms
              \<longrightarrow> lookup_player (fst (on_disconnect sid s)) rid2 sid \<noteq> None
                  \<and> lookup_player (fst (run (fst (on_disconnect sid s)) ms)) rid2 sid \<noteq> None)"
proof (intro conjI allI impI)
  from assms(1) have ok: "server_ok s" by (rule reachable_ok)
  then have d: "distinct (map fst (rooms s))" by (simp add: server_ok_def)
  with assms(2) have n: "rid \<notin> fst ` set pre" "rid \<notin> fst ` set post"
    by auto
  show eq: "on_disconnect sid s =
           (s\<lparr>rooms := pre
                 @ (if AList.delete sid (players room) = [] then []
                    else [(rid, room\<lparr>players := AList.delete sid (players room)\<rparr>)])
                 @ post\<rparr>,
            [Event rid (Player_left (p_playerId p) (p_name p))])"
    using disconnect_loop_first [OF assms(3,4), of rid post "rooms s"] n
    by (simp add: on_disconnect_def Let_def assms(2) update_in_middle delete_in_middle)
  fix rid2 room2 ms
  assume h: "(rid2, room2) \<in> set post \<and> map_of (players room2) sid \<noteq> None
                \<and> Disconnect sid \<notin> set ms"
  define s' where "s' = fst (on_disconnect sid s)"
  have ok': "server_ok s'" unfolding s'_def using ok by (rule on_disconnect_ok)
  then have "distinct (map fst (rooms s'))" by (simp add: server_ok_def)
  moreover from h have "(rid2, room2) \<in> set (rooms s')" by (simp add: s'_def eq)
  ultimately have "map_of (rooms s') rid2 = Some room2" by (rule map_of_is_SomeI)
  with h have here: "lookup_player s' rid2 sid \<noteq> None" by (simp add: lookup_player_def)
  then show "lookup_player (fst (on_disconnect sid s)) rid2 sid \<noteq> None"
    by (simp add: s'_def)
  from h have "Disconnect sid \<notin> set ms" by simp
  with ok' here show "lookup_player (fst (run (fst (on_disconnect sid s)) ms)) rid2 sid \<noteq> None"
    unfolding s'_def by (rule run_keeps_player)
qed

text \<open>
  Socket \<open>s1\<close> joins \<open>r1\<close> and then \<open>r2\<close>, and disconnects: \<open>r1\<close> is emptied and
  deleted, the player in \<open>r2\<close> remains, also after a tick and another socket's
  disconnect.
\<close>

lemma w_two_rooms: "rooms w_two = [(''r1'', w_joined_room), (''r2'', w_room2)]"
  by (simp add: w_two_def joinRoom_body_def w_joined_rooms w_join2_def getRoom_def Let_def
      w_room2_def new_room_def)

lemma w_two_reachable: "reachable w_two"
  unfolding w_two_def by (rule reachable.after [OF w_joined_reachable])

theorem disconnect_first_room_only_witness:
  "reachable w_two
   \<and> rooms w_two = [] @ (''r1'', w_joined_room) # [(''r2'', w_room2)]
   \<and> map_of (players w_joined_room) ''s1'' = Some w_player
   \<and> map_of (players w_room2) ''s1'' \<noteq> None
   \<and> on_disconnect ''s1'' w_two
       = (w_two\<lparr>rooms := [(''r2'', w_room2)]\<rparr>, [Event ''r1'' (Player_left ''p1'' ''Player'')])
   \<and> lookup_player (fst (on_disconnect ''s1'' w_two)) ''r2'' ''s1'' \<noteq> None
   \<and> lookup_player (fst (run (fst (on_disconnect ''s1'' w_two)) [Tick 67 w_rnd, Disconnect ''s2'']))
        ''r2'' ''s1'' \<noteq> None"
proof -
  have a: "rooms w_two = [] @ (''r1'', w_joined_room) # [(''r2'', w_room2)]"
    by (simp add: w_two_rooms)
  have b: "\<forall>(k, r) \<in> set []. map_of (players r) ''s1'' = None" by simp
  have c: "map_of (players w_joined_room) ''s1'' = Some w_player"
    by (simp add: w_joined_room_def)
  have d: "map_of (players w_room2) ''s1'' \<noteq> None"
    by (simp add: w_room2_def)
  have e: "p_playerId w_player = ''p1'' \<and> p_name w_player = ''Player''"
    by (simp add: w_player_def new_player_def w_join_def)
  have f: "AList.delete ''s1'' (players w_joined_room) = []"
    by (simp add: w_joined_room_def)
  note t = disconnect_first_room_only [OF w_two_reachable a b c]
  from t [THEN conjunct1] e f
  have g: "on_disconnect ''s1'' w_two
       = (w_two\<lparr>rooms := [(''r2'', w_room2)]\<rparr>, [Event ''r1'' (Player_left ''p1'' ''Player'')])"
    by simp
  from t [THEN conjunct2, rule_format, of "''r2''" w_room2 "[Tick 67 w_rnd, Disconnect ''s2'']"] d
  have h: "lookup_player (fst (on_disconnect ''s1'' w_two)) ''r2'' ''s1'' \<noteq> None
     \<and> lookup_player (fst (run (fst (on_disconnect ''s1'' w_two)) [Tick 67 w_rnd, Disconnect ''s2'']))
        ''r2'' ''s1'' \<noteq> None"
    by simp
  show ?thesis
    using w_two_reachable a c d g h by - (intro conjI; (assumption | elim conjE)+)
qed

subsection \<open>The cast-finish events of a tick\<close>

















subsection \<open>Cast timing\<close>










subsection \<open>A due cast\<close>

lemma casts_loop_append:
  "casts_loop now rid rnd p (xs @ ys) room i =
     (let (rem1, room1, evs1, i1) = casts_loop now rid rnd p xs room i;
          (rem2, room2, evs2, i2) = casts_loop now rid rnd p ys room1 i1
      in (rem1 @ rem2, room2, evs1 @ evs2, i2))"
  by (induction xs arbitrary: room i) (simp_all add: case_prod_beta Let_def)





subsection \<open>One projectile in one tick\<close>

lemma projectiles_loop_append:
  "projectiles_loop now dt rid (xs @ ys) room =
     (let (room1, evs1) = projectiles_loop now dt rid xs room;
          (room2, evs2) = projectiles_loop now dt rid ys room1
      in (room2, evs1 @ evs2))"
  by (induction xs arbitrary: room) (auto simp: case_prod_beta Let_def)

lemma projectile_step_silent:
  "k' \<noteq> k \<or> rid' \<noteq> rid \<Longrightarrow>
     filter (about_projectile rid' k') (snd (projectile_step now dt rid k pr room)) = []"
  by (auto simp: projectile_step_def Let_def emitEvent_def case_prod_beta split: option.splits)

lemma projectiles_loop_other:
  "k \<notin> fst ` set entries \<Longrightarrow>
     filter (about_projectile rid' k) (snd (projectiles_loop now dt rid entries room)) = []
     \<and> map_of (projectiles (fst (projectiles_loop now dt rid entries room))) k
         = map_of (projectiles room) k"
proof (induction entries arbitrary: room)
  case Nil
  then show ?case by simp
next
  case (Cons a entries)
  obtain k0 pr0 where a: "a = (k0, pr0)" by (cases a)
  from Cons.prems a have ne: "k \<noteq> k0" and rest: "k \<notin> fst ` set entries" by auto
  from Cons.IH [OF rest, of "fst (projectile_step now dt rid k0 pr0 room)"] ne
  show ?case
    by (simp add: a case_prod_beta Let_def projectile_step_silent projectile_step_present)
qed

lemma moved_fields:
  "pr_targetEnemyId (moved dt pr) = pr_targetEnemyId pr"
  "pr_expiresAt (moved dt pr) = pr_expiresAt pr"
  "pr_damage (moved dt pr) = pr_damage pr"
  "pr_ownerId (moved dt pr) = pr_ownerId pr"
  by (simp_all add: moved_def)

lemma projectile_step_expired:
  assumes "pr_expiresAt pr \<le> now"
  shows "projectile_step now dt rid k pr room =
           (room\<lparr>projectiles := AList.delete k (AList.update k (moved dt pr) (projectiles room))\<rparr>,
            [Event rid (Projectile_despawn k)])"
  using assms by (simp add: projectile_step_def Let_def emitEvent_def moved_def)

lemma projectile_step_hit:
  assumes "\<not> pr_expiresAt pr \<le> now" and "in_hit_radius (enemies room) (moved dt pr)"
  shows "\<exists>e. map_of (enemies room) (pr_targetEnemyId pr) = Some e
           \<and> projectile_step now dt rid k pr room =
               (room\<lparr>enemies := AList.update (pr_targetEnemyId pr)
                                  (e\<lparr>e_hp := max 0 (e_hp e - pr_damage pr)\<rparr>) (enemies room),
                      projectiles := AList.delete k (AList.update k (moved dt pr) (projectiles room))\<rparr>,
                [Event rid (Hit k (pr_ownerId pr) ''enemy'' (e_enemyId e)),
                 Event rid (Damage (pr_ownerId pr) ''enemy'' (e_enemyId e) (pr_damage pr)
                              (max 0 (e_hp e - pr_damage pr)) (e_maxHp e)),
                 Event rid (Projectile_despawn k)]
                @ (if max 0 (e_hp e - pr_damage pr) \<le> 0
                   then [Event rid (Enemy_death (e_enemyId e))] else []))"
proof -
  from assms(2) obtain e where e: "map_of (enemies room) (pr_targetEnemyId pr) = Some e"
    and t: "pr_targetEnemyId pr \<noteq> []"
    and d: "(e_x e - pr_x (moved dt pr)) * (e_x e - pr_x (moved dt pr))
            + (e_z e - pr_z (moved dt pr)) * (e_z e - pr_z (moved dt pr)) < (6 / 10) * (6 / 10)"
    by (auto simp: in_hit_radius_def moved_def split: option.splits)
  have "projectile_step now dt rid k pr room =
               (room\<lparr>enemies := AList.update (pr_targetEnemyId pr)
                                  (e\<lparr>e_hp := max 0 (e_hp e - pr_damage pr)\<rparr>) (enemies room),
                      projectiles := AList.delete k (AList.update k (moved dt pr) (projectiles room))\<rparr>,
                [Event rid (Hit k (pr_ownerId pr) ''enemy'' (e_enemyId e)),
                 Event rid (Damage (pr_ownerId pr) ''enemy'' (e_enemyId e) (pr_damage pr)
                              (max 0 (e_hp e - pr_damage pr)) (e_maxHp e)),
                 Event rid (Projectile_despawn k)]
                @ (if max 0 (e_hp e - pr_damage pr) \<le> 0
                   then [Event rid (Enemy_death (e_enemyId e))] else []))"
    unfolding projectile_step_def moved_def [symmetric] Let_def
    using assms(1) e t d
    by (simp add: findEnemy_def emitEvent_def moved_def)
  with e show ?thesis by blast
qed

lemma projectile_step_miss:
  assumes "\<not> pr_expiresAt pr \<le> now" and "\<not> in_hit_radius (enemies room) (moved dt pr)"
  shows "projectile_step now dt rid k pr room =
           (room\<lparr>projectiles := AList.update k (moved dt pr) (projectiles room)\<rparr>, [])"
proof (cases "pr_targetEnemyId pr = []")
  case True
  with assms(1) show ?thesis
    by (simp add: projectile_step_def Let_def moved_def)
next
  case False
  show ?thesis
  proof (cases "map_of (enemies room) (pr_targetEnemyId pr)")
    case None
    with assms(1) False show ?thesis
      by (simp add: projectile_step_def Let_def moved_def findEnemy_def)
  next
    case (Some e)
    with assms(2) False have
      "\<not> (e_x e - pr_x (moved dt pr)) * (e_x e - pr_x (moved dt pr))
            + (e_z e - pr_z (moved dt pr)) * (e_z e - pr_z (moved dt pr)) < (6 / 10) * (6 / 10)"
      by (simp add: in_hit_radius_def moved_fields)
    with assms(1) False Some show ?thesis
      unfolding projectile_step_def moved_def [symmetric] Let_def
      by (simp add: findEnemy_def moved_def)
  qed
qed


lemma projectile_step_radius:
  "in_hit_radius (enemies (fst (projectile_step now dt rid k pr room))) q
     = in_hit_radius (enemies room) q"
proof -
  have u: "in_hit_radius (AList.update ek (e\<lparr>e_hp := h\<rparr>) es) q = in_hit_radius es q"
    if "map_of es ek = Some e" for ek e h and es :: "(string \<times> enemy) list"
  proof (cases "pr_targetEnemyId q = ek")
    case True
    with that show ?thesis by (simp add: in_hit_radius_def update_conv')
  next
    case False
    then show ?thesis by (simp add: in_hit_radius_def update_conv')
  qed
  consider "pr_expiresAt pr \<le> now"
    | "\<not> pr_expiresAt pr \<le> now" "in_hit_radius (enemies room) (moved dt pr)"
    | "\<not> pr_expiresAt pr \<le> now" "\<not> in_hit_radius (enemies room) (moved dt pr)"
    by blast
  then show ?thesis
  proof cases
    case 1
    then show ?thesis by (simp add: projectile_step_expired)
  next
    case 2
    from projectile_step_hit [OF 2, where rid = rid and k = k] obtain e where
      m: "map_of (enemies room) (pr_targetEnemyId pr) = Some e"
      and st: "projectile_step now dt rid k pr room =
               (room\<lparr>enemies := AList.update (pr_targetEnemyId pr)
                                  (e\<lparr>e_hp := max 0 (e_hp e - pr_damage pr)\<rparr>) (enemies room),
                      projectiles := AList.delete k (AList.update k (moved dt pr) (projectiles room))\<rparr>,
                [Event rid (Hit k (pr_ownerId pr) ''enemy'' (e_enemyId e)),
                 Event rid (Damage (pr_ownerId pr) ''enemy'' (e_enemyId e) (pr_damage pr)
                              (max 0 (e_hp e - pr_damage pr)) (e_maxHp e)),
                 Event rid (Projectile_despawn k)]
                @ (if max 0 (e_hp e - pr_damage pr) \<le> 0
                   then [Event rid (Enemy_death (e_enemyId e))] else []))"
      by (elim exE conjE)
    have "enemies (fst (projectile_step now dt rid k pr room))
            = AList.update (pr_targetEnemyId pr) (e\<lparr>e_hp := max 0 (e_hp e - pr_damage pr)\<rparr>) (enemies room)"
      unfolding st by simp
    then show ?thesis by (simp only: u [OF m])
  next
    case 3
    then show ?thesis by (simp add: projectile_step_miss)
  qed
qed

lemma projectiles_loop_radius:
  "in_hit_radius (enemies (fst (projectiles_loop now dt rid entries room))) q
     = in_hit_radius (enemies room) q"
proof (induction entries arbitrary: room)
  case Nil
  then show ?case by simp
next
  case (Cons a entries)
  obtain k pr where a: "a = (k, pr)" by (cases a)
  have "fst (projectiles_loop now dt rid (a # entries) room)
          = fst (projectiles_loop now dt rid entries (fst (projectile_step now dt rid k pr room)))"
    by (simp add: a case_prod_beta Let_def)
  then show ?case
    by (simp only: Cons.IH projectile_step_radius)
qed

subsection \<open>The tick of one room within the tick of the registry\<close>



subsection \<open>The cast loops resolve the due casts in order\<close>








subsection \<open>Evaluation of a tick on the room with the enemies at (6, 8)\<close>


lemma ray_sqrt:
  assumes "0 \<le> d"
  shows "sqrt ((d * 3 / 5) * (d * 3 / 5) + (d * 4 / 5) * (d * 4 / 5)) = d"
proof -
  have "(d * 3 / 5) * (d * 3 / 5) + (d * 4 / 5) * (d * 4 / 5) = d\<^sup>2"
    by (simp add: power2_eq_square field_simps)
  with assms show ?thesis by simp
qed
















lemma v_moved: "moved dt (v_shot t) = v_shot (t + dt)"
  by (simp add: moved_def v_shot_def algebra_simps)

lemma v_radius:
  "in_hit_radius (v_chasers d h) (v_shot t) \<longleftrightarrow> (d - 10 * t) * (d - 10 * t) < 9 / 25"
proof -
  have "(d * 3 / 5 - 6 * t) * (d * 3 / 5 - 6 * t) + (d * 4 / 5 - 8 * t) * (d * 4 / 5 - 8 * t)
          = (d - 10 * t) * (d - 10 * t)"
    by (simp add: field_simps)
  then show ?thesis
    by (simp add: in_hit_radius_def v_chasers_def v_enemies_def v_enemy_def v_shot_def)
qed


lemma v_step_expired:
  assumes "3150 \<le> now"
  shows "projectile_step now dt ''r1'' ''p_p1_650_7999'' (v_shot t)
           (v_room cs (v_chasers d h) [(''p_p1_650_7999'', v_shot t)])
         = (v_room cs (v_chasers d h) [], [Event ''r1'' (Projectile_despawn ''p_p1_650_7999'')])"
proof -
  have e: "pr_expiresAt (v_shot t) \<le> now" using assms by (simp add: v_shot_def)
  show ?thesis
    unfolding projectile_step_expired [OF e] by (simp add: v_room_def)
qed

lemma v_step_hit:
  assumes "now < 3150" and "(d - 10 * (t + dt)) * (d - 10 * (t + dt)) < 9 / 25"
  shows "projectile_step now dt ''r1'' ''p_p1_650_7999'' (v_shot t)
           (v_room cs (v_chasers d 50) [(''p_p1_650_7999'', v_shot t)])
         = (v_room cs (v_chasers d 38) [],
            [Event ''r1'' (Hit ''p_p1_650_7999'' ''p1'' ''enemy'' ''e1''),
             Event ''r1'' (Damage ''p1'' ''enemy'' ''e1'' 12 38 50),
             Event ''r1'' (Projectile_despawn ''p_p1_650_7999'')])"
proof -
  have e: "\<not> pr_expiresAt (v_shot t) \<le> now" using assms(1) by (simp add: v_shot_def)
  have r: "in_hit_radius (enemies (v_room cs (v_chasers d 50) [(''p_p1_650_7999'', v_shot t)]))
               (moved dt (v_shot t))"
    using assms(2) by (simp add: v_moved v_radius v_room_def)
  from projectile_step_hit [OF e r, of "''r1''" "''p_p1_650_7999''"] show ?thesis
    by (auto simp: v_room_def v_chasers_def v_enemies_def v_enemy_def v_shot_def)
qed

lemma v_snapshot_not_event: "snapshot rid now room \<noteq> Event r ev"
  by (simp add: snapshot_def)





end
